theory Spec2Isabelle
  imports Main
begin

section \<open>Python values and failures\<close>

text \<open>
  The exceptions the program can raise. \<open>Exception msg\<close> is the plain
  \<^verbatim>\<open>raise Exception(msg)\<close> of the source; the others are raised by the
  interpreter itself (a list index out of range, a missing dictionary key,
  an operator applied to operands it does not support, a local variable read
  before it was bound).
\<close>

datatype error = Exception string | IndexError | KeyError | TypeError | UnboundLocalError

text \<open>\<^verbatim>\<open>i in range(n)\<close> for integers.\<close>

definition in_range :: "int \<Rightarrow> int \<Rightarrow> bool" where
  "in_range i n \<longleftrightarrow> 0 \<le> i \<and> i < n"

text \<open>
  \<^verbatim>\<open>xs[i]\<close>: a negative index counts from the end of the list, and an index
  outside \<open>-len(xs) .. len(xs) - 1\<close> raises IndexError.
\<close>

definition py_index :: "'a list \<Rightarrow> int \<Rightarrow> error + 'a" where
  "py_index xs i =
     (let n = int (length xs); j = (if i < 0 then i + n else i)
      in if 0 \<le> j \<and> j < n then Inr (xs ! nat j) else Inl IndexError)"

text \<open>\<^verbatim>\<open>xs[i] = v\<close>, with the same index rule.\<close>

definition py_store :: "'a list \<Rightarrow> int \<Rightarrow> 'a \<Rightarrow> error + 'a list" where
  "py_store xs i v =
     (let n = int (length xs); j = (if i < 0 then i + n else i)
      in if 0 \<le> j \<and> j < n then Inr (xs[nat j := v]) else Inl IndexError)"

text \<open>\<^verbatim>\<open>data[i][j]\<close> and \<^verbatim>\<open>data[i][j] = v\<close> on a list of rows.\<close>

definition get_cell :: "'a list list \<Rightarrow> int \<Rightarrow> int \<Rightarrow> error + 'a" where
  "get_cell g i j =
     (case py_index g i of Inl e \<Rightarrow> Inl e | Inr row \<Rightarrow> py_index row j)"

definition set_cell :: "'a list list \<Rightarrow> int \<Rightarrow> int \<Rightarrow> 'a \<Rightarrow> error + 'a list list" where
  "set_cell g i j v =
     (case py_index g i of
        Inl e \<Rightarrow> Inl e
      | Inr row \<Rightarrow>
          (case py_store row j v of
             Inl e \<Rightarrow> Inl e
           | Inr row' \<Rightarrow> py_store g i row'))"

section \<open>The snake\<close>

text \<open>
  A segment is the two-element list \<^verbatim>\<open>[distance, direction]\<close>; the direction
  is a Python string. The record of a snake holds the contents of its segment
  lists in order. Which of them are one and the same list object matters to
  \<^verbatim>\<open>World.step\<close> only, which adds to distances in place, and is given to the
  model of that method as an argument.
\<close>

type_synonym segment = "int \<times> string"

record snake =
  length_snake :: int
  chars :: "string list"
  segments :: "segment list"

definition default_chars :: "string list" where
  "default_chars = [''X'', ''-'', ''|'', ''x'']"

text \<open>The loop of \<^verbatim>\<open>Snake.__init__\<close> over the segments it is given.\<close>

fun check_segments :: "int \<Rightarrow> segment list \<Rightarrow> error + unit" where
  "check_segments len [] = Inr ()"
| "check_segments len (seg # segs) =
     (if fst seg \<ge> len - 1
      then Inl (Exception ''Snake segments must begin before the tail'')
      else check_segments len segs)"

text \<open>
  \<^verbatim>\<open>Snake.__init__\<close>, on the contents of the list bound to its
  \<^verbatim>\<open>segments\<close> parameter. Which list object that is when the argument is
  left out is the subject of the store model further down.
\<close>

definition Snake_init :: "int \<Rightarrow> segment list \<Rightarrow> string list \<Rightarrow> error + snake" where
  "Snake_init len segs chs =
     (case check_segments len segs of
        Inl e \<Rightarrow> Inl e
      | Inr _ \<Rightarrow> Inr \<lparr>length_snake = len, chars = chs, segments = segs\<rparr>)"

definition turn :: "snake \<Rightarrow> string \<Rightarrow> snake" where
  "turn s direction = s\<lparr>segments := (- 1, direction) # segments s\<rparr>"

definition grow :: "snake \<Rightarrow> int \<Rightarrow> snake" where
  "grow s n = s\<lparr>length_snake := length_snake s + n\<rparr>"

section \<open>The world\<close>

record world =
  snake :: snake
  pos :: "int \<times> int"
  height :: int
  width :: int
  foodchar :: string
  data :: "string list list"

text \<open>The class attribute \<^verbatim>\<open>matrix_moves\<close>; a missing key raises KeyError.\<close>

definition matrix_moves :: "string \<rightharpoonup> int \<times> int" where
  "matrix_moves =
     map_of [(''N'', (- 1, 0)), (''S'', (1, 0)), (''E'', (0, 1)), (''W'', (0, - 1))]"

text \<open>
  \<^verbatim>\<open>segments[i][0] += 1\<close>. The list objects of the segments are told apart by
  \<open>obj\<close>: positions \<open>i\<close> and \<open>j\<close> of \<^verbatim>\<open>segments\<close> refer to the same list
  object exactly when \<open>obj i = obj j\<close>, and then the addition at one of them
  shows at the other.
\<close>

definition shift :: "segment \<Rightarrow> segment" where
  "shift seg = (fst seg + 1, snd seg)"

definition add_one :: "(nat \<Rightarrow> nat) \<Rightarrow> nat \<Rightarrow> segment list \<Rightarrow> segment list" where
  "add_one obj i segs =
     map (\<lambda>j. if obj j = obj i then shift (segs ! j) else segs ! j) [0..<length segs]"

text \<open>
  \<^verbatim>\<open>World.step\<close>. With a queued turn in front the loop over \<^verbatim>\<open>range(2)\<close>
  reads \<^verbatim>\<open>segments[1]\<close>, which raises when there is one segment only;
  \<^verbatim>\<open>segments[0]\<close> raises on an empty list. Otherwise the loop runs over the
  positions from 1 on.
\<close>

definition step_shared :: "(nat \<Rightarrow> nat) \<Rightarrow> world \<Rightarrow> error + world" where
  "step_shared obj w =
     (case segments (snake w) of
        [] \<Rightarrow> Inl IndexError
      | s0 # rest \<Rightarrow>
          (case (if fst s0 = - 1
                 then (case rest of
                         [] \<Rightarrow> Inl IndexError
                       | s1 # rest' \<Rightarrow>
                           Inr (add_one obj 1 (add_one obj 0 (s0 # s1 # rest'))))
                 else Inr (fold (add_one obj) [1..<length (s0 # rest)] (s0 # rest))) of
             Inl e \<Rightarrow> Inl e
           | Inr segs \<Rightarrow>
               (case matrix_moves (snd (hd segs)) of
                  None \<Rightarrow> Inl KeyError
                | Some m \<Rightarrow>
                    Inr (w\<lparr>snake := (snake w)\<lparr>segments := segs\<rparr>,
                           pos := (fst (pos w) + fst m, snd (pos w) + snd m)\<rparr>))))"

text \<open>
  \<^verbatim>\<open>World.step\<close> for a snake whose segments are pairwise distinct list objects,
  as they are when the snake was made from the default list or from a list of
  fresh segments, and after any number of calls of \<^verbatim>\<open>turn\<close>, which inserts a
  new list object each time.
\<close>

definition step :: "world \<Rightarrow> error + world" where
  "step w = step_shared (\<lambda>i. i) w"

text \<open>Sequencing of steps that may raise: the first failure ends the sequence.\<close>

fun bind_res :: "error + 'a \<Rightarrow> ('a \<Rightarrow> error + 'b) \<Rightarrow> error + 'b" where
  "bind_res (Inl e) f = Inl e"
| "bind_res (Inr x) f = f x"

text \<open>\<^verbatim>\<open>World.gen\<close>: \<^verbatim>\<open>range\<close> of a negative number is empty.\<close>

definition gen :: "world \<Rightarrow> world" where
  "gen w = w\<lparr>data := replicate (nat (height w)) (replicate (nat (width w)) '' '')\<rparr>"

text \<open>
  The state of the two loops of \<^verbatim>\<open>World.insertSnake\<close>: the grid being
  written, the pointer, and the local variable \<^verbatim>\<open>move\<close>, which is unbound
  until the first piece has been drawn.
\<close>

record brush =
  canvas :: "string list list"
  pointer :: "int \<times> int"
  move :: "(int \<times> int) option"

text \<open>The inner loop \<^verbatim>\<open>for j in range(seg_length)\<close>, by the number of pieces left.\<close>

fun draw_pieces :: "int \<Rightarrow> int \<Rightarrow> string \<Rightarrow> string \<Rightarrow> nat \<Rightarrow> brush \<Rightarrow> error + brush" where
  "draw_pieces h w direction char 0 b = Inr b"
| "draw_pieces h w direction char (Suc n) b =
     (if \<not> in_range (fst (pointer b)) h \<or> \<not> in_range (snd (pointer b)) w
      then Inl (Exception ''Snake is out of bounds'')
      else bind_res (set_cell (canvas b) (fst (pointer b)) (snd (pointer b)) char) (\<lambda>g.
           case matrix_moves direction of
             None \<Rightarrow> Inl KeyError
           | Some m \<Rightarrow>
               draw_pieces h w direction char n
                 \<lparr>canvas = g,
                  pointer = (fst (pointer b) - fst m, snd (pointer b) - snd m),
                  move = Some m\<rparr>))"

text \<open>
  The outer loop over the segments, head first. A segment other than the last
  is as long as the difference of its distance to the next one's; the last
  one runs to the length of the snake.
\<close>

fun draw_segments ::
  "int \<Rightarrow> int \<Rightarrow> string list \<Rightarrow> int \<Rightarrow> segment list \<Rightarrow> brush \<Rightarrow> error + brush" where
  "draw_segments h w chs len [] b = Inr b"
| "draw_segments h w chs len (seg # rest) b =
     bind_res (py_index chs (if snd seg = ''E'' \<or> snd seg = ''W'' then 1 else 2)) (\<lambda>char.
     bind_res (draw_pieces h w (snd seg) char
                 (nat (case rest of [] \<Rightarrow> len - fst seg | nxt # _ \<Rightarrow> fst nxt - fst seg)) b) (\<lambda>b'.
     draw_segments h w chs len rest b'))"

definition insertSnake :: "world \<Rightarrow> error + world" where
  "insertSnake w =
     bind_res (draw_segments (height w) (width w) (chars (snake w)) (length_snake (snake w))
                 (segments (snake w)) \<lparr>canvas = data w, pointer = pos w, move = None\<rparr>) (\<lambda>b.
     case move b of
       None \<Rightarrow> Inl UnboundLocalError
     | Some m \<Rightarrow>
         bind_res (py_index (chars (snake w)) 3) (\<lambda>tailchar.
         bind_res (set_cell (canvas b) (fst (pointer b) + fst m) (snd (pointer b) + snd m)
                     tailchar) (\<lambda>g.
         bind_res (py_index (chars (snake w)) 0) (\<lambda>headchar.
         bind_res (set_cell g (fst (pos w)) (snd (pos w)) headchar) (\<lambda>g'.
         Inr (w\<lparr>data := g'\<rparr>))))))"

definition clearSnake :: "world \<Rightarrow> world" where
  "clearSnake w =
     w\<lparr>data := map (map (\<lambda>cell. if cell \<notin> set (chars (snake w)) then cell else '' ''))
                 (data w)\<rparr>"

text \<open>
  \<^verbatim>\<open>World.placeFood\<close>. The random source is a list of numbers, and
  \<^verbatim>\<open>random.choice(range(n))\<close> takes the next one modulo \<open>n\<close> (it raises
  IndexError on an empty range). The loop has no bound of its own: the result
  is \<open>None\<close> when the numbers run out before a blank cell is hit.
\<close>

fun placeFood :: "world \<Rightarrow> nat list \<Rightarrow> (error + world \<times> nat list) option" where
  "placeFood w [] = (if height w \<le> 0 then Some (Inl IndexError) else None)"
| "placeFood w [r1] =
     (if height w \<le> 0 \<or> width w \<le> 0 then Some (Inl IndexError) else None)"
| "placeFood w (r1 # r2 # rs) =
     (if height w \<le> 0 \<or> width w \<le> 0 then Some (Inl IndexError)
      else case get_cell (data w) (int r1 mod height w) (int r2 mod width w) of
             Inl e \<Rightarrow> Some (Inl e)
           | Inr cell \<Rightarrow>
               if cell = '' ''
               then (case set_cell (data w) (int r1 mod height w) (int r2 mod width w)
                            (foodchar w) of
                       Inl e \<Rightarrow> Some (Inl e)
                     | Inr g \<Rightarrow> Some (Inr (w\<lparr>data := g\<rparr>, rs)))
               else placeFood w rs)"

text \<open>
  \<^verbatim>\<open>World.__init__\<close>. \<^verbatim>\<open>if pos:\<close> is false for \<^verbatim>\<open>None\<close> and for an
  empty list. The message of the exception for a start column that is too small
  is written as one string divided by another, so evaluating it raises
  TypeError. Of the list \<^verbatim>\<open>pos\<close> the world only ever reads the first two
  elements, which the record keeps as a pair.
\<close>

definition init_pos :: "int list option \<Rightarrow> int \<Rightarrow> int \<Rightarrow> int list" where
  "init_pos p h w =
     (case p of
        None \<Rightarrow> [h div 2, w div 4]
      | Some [] \<Rightarrow> [h div 2, w div 4]
      | Some (x # xs) \<Rightarrow> x # xs)"

definition World_init ::
  "snake \<Rightarrow> int list option \<Rightarrow> int \<Rightarrow> int \<Rightarrow> string \<Rightarrow> nat list
     \<Rightarrow> (error + world \<times> nat list) option" where
  "World_init s p h w fc rs =
     (case py_index (init_pos p h w) 1 of
        Inl e \<Rightarrow> Some (Inl e)
      | Inr col \<Rightarrow>
          if col < length_snake s - 1 then Some (Inl TypeError)
          else (case insertSnake
                       (gen \<lparr>snake = s, pos = (hd (init_pos p h w), col), height = h,
                             width = w, foodchar = fc, data = [[]]\<rparr>) of
                  Inl e \<Rightarrow> Some (Inl e)
                | Inr w1 \<Rightarrow> placeFood w1 rs))"

definition onFood :: "world \<Rightarrow> error + bool" where
  "onFood w =
     bind_res (get_cell (data w) (fst (pos w)) (snd (pos w))) (\<lambda>cell.
     Inr (cell = foodchar w))"

definition loss :: "world \<Rightarrow> error + bool" where
  "loss w =
     (if \<not> in_range (fst (pos w)) (height w) \<or> \<not> in_range (snd (pos w)) (width w)
      then Inr True
      else bind_res (get_cell (data w) (fst (pos w)) (snd (pos w))) (\<lambda>cell.
           Inr (cell \<in> set (tl (chars (snake w))))))"

text \<open>
  \<^verbatim>\<open>World.__repr__\<close>: it redraws the snake into \<^verbatim>\<open>self.data\<close> and returns
  the bordered text.
\<close>

definition border :: "world \<Rightarrow> string" where
  "border w = concat (replicate (nat (width w + 2)) ''W'')"

definition repr_world :: "world \<Rightarrow> error + world \<times> string" where
  "repr_world w =
     bind_res (insertSnake (clearSnake w)) (\<lambda>w'.
     Inr (w', border w' @ [CHR 0x0A]
              @ concat (map (\<lambda>row. ''W'' @ concat row @ ''W'' @ [CHR 0x0A]) (data w'))
              @ border w'))"

section \<open>The game loop\<close>

text \<open>
  The loop \<^verbatim>\<open>while self.onFood(): self.placeFood()\<close> of \<^verbatim>\<open>World.run\<close>.
  The first argument bounds the number of times the condition is tested;
  \<open>None\<close> means that the bound or the random numbers ran out first.
\<close>

fun refill :: "nat \<Rightarrow> world \<Rightarrow> nat list \<Rightarrow> (error + world \<times> nat list) option" where
  "refill 0 w rs = None"
| "refill (Suc k) w rs =
     (case onFood w of
        Inl e \<Rightarrow> Some (Inl e)
      | Inr food \<Rightarrow>
          if \<not> food then Some (Inr (w, rs))
          else (case placeFood w rs of
                  None \<Rightarrow> None
                | Some (Inl e) \<Rightarrow> Some (Inl e)
                | Some (Inr (w', rs')) \<Rightarrow> refill k w' rs'))"

text \<open>
  The body of \<^verbatim>\<open>if self.onFood():\<close>: the snake grows by one, the cell under
  the head is blanked, and the loop above runs.
\<close>

definition eat :: "nat \<Rightarrow> world \<Rightarrow> nat list \<Rightarrow> (error + world \<times> nat list) option" where
  "eat k w rs =
     (case set_cell (data w) (fst (pos w)) (snd (pos w)) '' '' of
        Inl e \<Rightarrow> Some (Inl e)
      | Inr g \<Rightarrow> refill k (w\<lparr>snake := grow (snake w) 1, data := g\<rparr>) rs)"

text \<open>
  One pass through the body of the main loop of \<^verbatim>\<open>World.run\<close>: print (which
  redraws the snake), step, test for loss, eat. The result says whether the
  loop was left by \<^verbatim>\<open>break\<close>, and gives the world, the count of food eaten and
  the random numbers left. The printed text and the pause are not part of
  the state.
\<close>

definition tick ::
  "nat \<Rightarrow> world \<Rightarrow> int \<Rightarrow> nat list \<Rightarrow> (error + bool \<times> world \<times> int \<times> nat list) option" where
  "tick k w eaten rs =
     (case repr_world w of
        Inl e \<Rightarrow> Some (Inl e)
      | Inr (w1, shown) \<Rightarrow>
     (case step w1 of
        Inl e \<Rightarrow> Some (Inl e)
      | Inr w2 \<Rightarrow>
     (case loss w2 of
        Inl e \<Rightarrow> Some (Inl e)
      | Inr lost \<Rightarrow>
          if lost then Some (Inr (True, w2, eaten, rs))
          else (case onFood w2 of
                  Inl e \<Rightarrow> Some (Inl e)
                | Inr food \<Rightarrow>
                    if \<not> food then Some (Inr (False, w2, eaten, rs))
                    else (case eat k w2 rs of
                            None \<Rightarrow> None
                          | Some (Inl e) \<Rightarrow> Some (Inl e)
                          | Some (Inr (w3, rs')) \<Rightarrow>
                              Some (Inr (False, w3, eaten + 1, rs')))))))"

fun run_loop :: "nat \<Rightarrow> world \<Rightarrow> int \<Rightarrow> nat list \<Rightarrow> (error + world \<times> int) option" where
  "run_loop 0 w eaten rs = None"
| "run_loop (Suc k) w eaten rs =
     (case loss w of
        Inl e \<Rightarrow> Some (Inl e)
      | Inr lost \<Rightarrow>
          if lost then Some (Inr (w, eaten))
          else (case tick k w eaten rs of
                  None \<Rightarrow> None
                | Some (Inl e) \<Rightarrow> Some (Inl e)
                | Some (Inr (stop, w', eaten', rs')) \<Rightarrow>
                    if stop then Some (Inr (w', eaten'))
                    else run_loop k w' eaten' rs'))"

text \<open>\<^verbatim>\<open>World.run\<close>, returning the world and the count it reports at the end.\<close>

definition run :: "nat \<Rightarrow> world \<Rightarrow> nat list \<Rightarrow> (error + world \<times> int) option" where
  "run k w rs = run_loop k w 0 rs"

section \<open>Snake objects and the list objects they refer to\<close>

text \<open>
  A snake does not hold its segments, it holds a reference to a list object,
  and \<^verbatim>\<open>turn\<close> inserts into that object in place. The store maps the address
  of a list object to its contents (an address not in use holds the empty
  list). The default value of the parameter \<^verbatim>\<open>segments\<close> is one list object,
  made when the \<^verbatim>\<open>def\<close> statement is executed.
\<close>

type_synonym addr = nat

type_synonym store = "addr \<Rightarrow> segment list"

record snake_obj =
  obj_length :: int
  obj_chars :: "string list"
  obj_segments :: addr

definition default_segments :: addr where
  "default_segments = 0"

text \<open>The store once the class body has been executed.\<close>

definition module_store :: store where
  "module_store = (\<lambda>a. [])(default_segments := [(0, ''E'')])"

text \<open>
  \<^verbatim>\<open>Snake.__init__\<close> with the argument \<^verbatim>\<open>segments\<close> given as the address of a
  list object, or left out.
\<close>

definition Snake_new :: "store \<Rightarrow> int \<Rightarrow> addr option \<Rightarrow> string list \<Rightarrow> error + snake_obj" where
  "Snake_new st len arg chs =
     (let a = (case arg of None \<Rightarrow> default_segments | Some a' \<Rightarrow> a')
      in bind_res (Snake_init len (st a) chs) (\<lambda>s.
         Inr \<lparr>obj_length = len, obj_chars = chs, obj_segments = a\<rparr>))"

definition turn_obj :: "store \<Rightarrow> snake_obj \<Rightarrow> string \<Rightarrow> store" where
  "turn_obj st obj direction =
     st(obj_segments obj := (- 1, direction) # st (obj_segments obj))"

text \<open>The snake an object stands for in a given store.\<close>

definition snake_at :: "store \<Rightarrow> snake_obj \<Rightarrow> snake" where
  "snake_at st obj =
     \<lparr>length_snake = obj_length obj, chars = obj_chars obj,
      segments = st (obj_segments obj)\<rparr>"

text \<open>The snake made by the module-level statement \<^verbatim>\<open>s = Snake(3)\<close>.\<close>

definition module_snake :: "error + snake_obj" where
  "module_snake = Snake_new module_store 3 None default_chars"

section \<open>Well-shaped grids and the states of the examples\<close>

text \<open>
  The grid \<^verbatim>\<open>gen\<close> makes has \<open>height\<close> rows of \<open>width\<close> cells, and no
  method changes the number of rows or cells.
\<close>

definition shape :: "'a list list \<Rightarrow> int \<Rightarrow> int \<Rightarrow> bool" where
  "shape g h w \<longleftrightarrow> length g = nat h \<and> (\<forall>row \<in> set g. length row = nat w)"

definition grid_ok :: "world \<Rightarrow> bool" where
  "grid_ok w \<longleftrightarrow> shape (data w) (height w) (width w)"

text \<open>The driver's calls \<^verbatim>\<open>w.snake.turn(d)\<close> and \<^verbatim>\<open>w.snake.grow(n)\<close>.\<close>

definition turn_snake :: "world \<Rightarrow> string \<Rightarrow> world" where
  "turn_snake w direction = w\<lparr>snake := turn (snake w) direction\<rparr>"

definition grow_snake :: "world \<Rightarrow> int \<Rightarrow> world" where
  "grow_snake w n = w\<lparr>snake := grow (snake w) n\<rparr>"

text \<open>A number of calls of \<^verbatim>\<open>step\<close> in a row.\<close>

fun steps :: "nat \<Rightarrow> world \<Rightarrow> error + world" where
  "steps 0 w = Inr w"
| "steps (Suc n) w = bind_res (step w) (steps n)"

text \<open>
  \<^verbatim>\<open>Snake(2, [[-1, 'E']])\<close>, and the world
  \<^verbatim>\<open>World(s, pos=[0, 2], height=1, width=4)\<close> made from it when the food falls
  on the last cell.
\<close>

definition lone_queued_snake :: snake where
  "lone_queued_snake =
     \<lparr>length_snake = 2, chars = default_chars, segments = [(- 1, ''E'')]\<rparr>"

definition lone_queued_world :: world where
  "lone_queued_world =
     \<lparr>snake = lone_queued_snake, pos = (0, 2), height = 1, width = 4, foodchar = ''*'',
      data = [[''x'', ''-'', ''X'', ''*'']]\<rparr>"

text \<open>
  \<^verbatim>\<open>Snake(3)\<close>, the grid of \<^verbatim>\<open>World(s)\<close> once the snake is drawn, and that
  world when \<^verbatim>\<open>placeFood\<close> hits row \<open>i\<close>, column \<open>j\<close>.
\<close>

definition default_snake :: snake where
  "default_snake = \<lparr>length_snake = 3, chars = default_chars, segments = [(0, ''E'')]\<rparr>"

definition drawn_grid :: "string list list" where
  "drawn_grid =
     replicate 8 (replicate 16 '' '')
     @ [['' '', '' '', ''x'', ''-'', ''X''] @ replicate 11 '' '']
     @ replicate 7 (replicate 16 '' '')"

definition fed_world :: "nat \<Rightarrow> nat \<Rightarrow> world" where
  "fed_world i j =
     \<lparr>snake = default_snake, pos = (8, 4), height = 16, width = 16, foodchar = ''*'',
      data = drawn_grid[i := (drawn_grid ! i)[j := ''*'']]\<rparr>"

text \<open>The number of cells of the grid that hold a glyph of the snake, or the food.\<close>

definition snake_cells :: "world \<Rightarrow> nat" where
  "snake_cells w = length (filter (\<lambda>cell. cell \<in> set (chars (snake w))) (concat (data w)))"

definition food_cells :: "world \<Rightarrow> nat" where
  "food_cells w = length (filter (\<lambda>cell. cell = foodchar w) (concat (data w)))"

text \<open>The default world before the food is placed.\<close>

definition drawn_world :: world where
  "drawn_world =
     \<lparr>snake = default_snake, pos = (8, 4), height = 16, width = 16, foodchar = ''*'',
      data = drawn_grid\<rparr>"

text \<open>
  \<^verbatim>\<open>Snake(3, chars=('x', '-', '|', 'x'))\<close>, whose head glyph is its tail glyph,
  and the world \<^verbatim>\<open>World(s)\<close> made from it with the food at row 3, column 7.
\<close>

definition twin_snake :: snake where
  "twin_snake =
     \<lparr>length_snake = 3, chars = [''x'', ''-'', ''|'', ''x''], segments = [(0, ''E'')]\<rparr>"

definition twin_world :: world where
  "twin_world =
     \<lparr>snake = twin_snake, pos = (8, 4), height = 16, width = 16, foodchar = ''*'',
      data = replicate 3 (replicate 16 '' '')
             @ [replicate 7 '' '' @ [''*''] @ replicate 8 '' '']
             @ replicate 4 (replicate 16 '' '')
             @ [['' '', '' '', ''x'', ''-'', ''x''] @ replicate 11 '' '']
             @ replicate 7 (replicate 16 '' '')\<rparr>"

text \<open>
  The walk of the drawing loops of \<^verbatim>\<open>insertSnake\<close>, without the grid: the
  cells the pointer visits while a segment of \<open>n\<close> pieces is drawn against
  the move \<open>m\<close>, and the cells of all segments in the order they are drawn,
  each with the heading of its segment.
\<close>

fun piece_cells :: "int \<times> int \<Rightarrow> int \<times> int \<Rightarrow> nat \<Rightarrow> (int \<times> int) list" where
  "piece_cells p m 0 = []"
| "piece_cells p m (Suc n) = p # piece_cells (fst p - fst m, snd p - snd m) m n"

definition seg_len :: "int \<Rightarrow> segment \<Rightarrow> segment list \<Rightarrow> nat" where
  "seg_len len seg rest =
     nat (case rest of [] \<Rightarrow> len - fst seg | nxt # _ \<Rightarrow> fst nxt - fst seg)"

definition delta :: "string \<Rightarrow> int \<times> int" where
  "delta d = (case matrix_moves d of None \<Rightarrow> (0, 0) | Some m \<Rightarrow> m)"

fun trail :: "int \<Rightarrow> segment list \<Rightarrow> int \<times> int \<Rightarrow> ((int \<times> int) \<times> string) list" where
  "trail len [] p = []"
| "trail len (seg # rest) p =
     map (\<lambda>q. (q, snd seg)) (piece_cells p (delta (snd seg)) (seg_len len seg rest))
     @ trail len rest
         (fst p - int (seg_len len seg rest) * fst (delta (snd seg)),
          snd p - int (seg_len len seg rest) * snd (delta (snd seg)))"

definition snake_trail :: "world \<Rightarrow> ((int \<times> int) \<times> string) list" where
  "snake_trail w = trail (length_snake (snake w)) (segments (snake w)) (pos w)"

text \<open>The glyph drawn for a segment of a given heading.\<close>

definition body_glyph :: "string list \<Rightarrow> string \<Rightarrow> string" where
  "body_glyph chs d = (if d = ''E'' \<or> d = ''W'' then chs ! 1 else chs ! 2)"

text \<open>A cell of the grid, reading it, and writing a glyph on it.\<close>

definition on_grid :: "int \<Rightarrow> int \<Rightarrow> int \<times> int \<Rightarrow> bool" where
  "on_grid h w q \<longleftrightarrow> in_range (fst q) h \<and> in_range (snd q) w"

definition cell_at :: "'a list list \<Rightarrow> int \<times> int \<Rightarrow> 'a" where
  "cell_at g q = g ! nat (fst q) ! nat (snd q)"

definition paint :: "'a list list \<Rightarrow> (int \<times> int) \<times> 'a \<Rightarrow> 'a list list" where
  "paint g qc =
     g[nat (fst (fst qc)) := (g ! nat (fst (fst qc)))[nat (snd (fst qc)) := snd qc]]"

text \<open>The number of cells of the grid that hold a given glyph.\<close>

definition glyph_cells :: "world \<Rightarrow> string \<Rightarrow> nat" where
  "glyph_cells w c = length (filter (\<lambda>cell. cell = c) (concat (data w)))"

text \<open>
  The default world after \<^verbatim>\<open>step\<close>, \<^verbatim>\<open>turn('W')\<close> and \<^verbatim>\<open>step\<close>: the snake has
  turned back onto its own second cell. The grid is still the one drawn at
  construction.
\<close>

definition uturn_world :: world where
  "uturn_world =
     (fed_world 3 7)\<lparr>snake := default_snake\<lparr>segments := [(0, ''W''), (1, ''E'')]\<rparr>\<rparr>"

text \<open>
  \<^verbatim>\<open>seg = [0, 'E']; Snake(4, [seg, seg])\<close>, a snake whose two segments are one
  list object, and the world \<^verbatim>\<open>World(s)\<close> made from it with the food at row 3,
  column 7.
\<close>

definition paired_snake :: snake where
  "paired_snake =
     \<lparr>length_snake = 4, chars = default_chars, segments = [(0, ''E''), (0, ''E'')]\<rparr>"

definition paired_world :: world where
  "paired_world =
     \<lparr>snake = paired_snake, pos = (8, 4), height = 16, width = 16, foodchar = ''*'',
      data = replicate 3 (replicate 16 '' '')
             @ [replicate 7 '' '' @ [''*''] @ replicate 8 '' '']
             @ replicate 4 (replicate 16 '' '')
             @ [['' '', ''x'', ''-'', ''-'', ''X''] @ replicate 11 '' '']
             @ replicate 7 (replicate 16 '' '')\<rparr>"

text \<open>
  \<^verbatim>\<open>World(Snake(3), pos=[8, 2])\<close>, the snake against the left edge of the grid,
  with the food at row 3, column 7.
\<close>

definition edge_world :: world where
  "edge_world =
     \<lparr>snake = default_snake, pos = (8, 2), height = 16, width = 16, foodchar = ''*'',
      data = replicate 3 (replicate 16 '' '')
             @ [replicate 7 '' '' @ [''*''] @ replicate 8 '' '']
             @ replicate 4 (replicate 16 '' '')
             @ [[''x'', ''-'', ''X''] @ replicate 13 '' '']
             @ replicate 7 (replicate 16 '' '')\<rparr>"

section \<open>Indexing a well-shaped grid\<close>

lemma py_index_in_range:
  "in_range i (int (length xs)) \<Longrightarrow> py_index xs i = Inr (xs ! nat i)"
  by (simp add: py_index_def in_range_def Let_def)

lemma py_store_in_range:
  "in_range i (int (length xs)) \<Longrightarrow> py_store xs i v = Inr (xs[nat i := v])"
  by (simp add: py_store_def in_range_def Let_def)

lemma shape_len: "shape g h w \<Longrightarrow> in_range i h \<Longrightarrow> in_range i (int (length g))"
  by (simp add: shape_def in_range_def)

lemma shape_row_len:
  "shape g h w \<Longrightarrow> in_range i h \<Longrightarrow> in_range j w \<Longrightarrow> in_range j (int (length (g ! nat i)))"
  by (simp add: shape_def in_range_def)

lemma get_cell_in_range:
  assumes "shape g h w" "in_range i h" "in_range j w"
  shows "get_cell g i j = Inr (g ! nat i ! nat j)"
  using assms
  by (simp add: get_cell_def py_index_in_range [OF shape_len] py_index_in_range [OF shape_row_len])

lemma set_cell_in_range:
  assumes "shape g h w" "in_range i h" "in_range j w"
  shows "set_cell g i j v = Inr (g[nat i := (g ! nat i)[nat j := v]])"
  using assms
  by (simp add: set_cell_def py_index_in_range [OF shape_len] py_store_in_range [OF shape_len]
      py_store_in_range [OF shape_row_len])

lemma shape_update:
  assumes "shape g h w"
  shows "shape (g[i := (g ! i)[j := v]]) h w"
proof (cases "i < length g")
  case True
  then have "length (g ! i) = nat w"
    using assms by (simp add: shape_def)
  then show ?thesis
    using assms by (auto simp: shape_def dest!: set_update_subset_insert [THEN subsetD])
next
  case False
  then have "g[i := (g ! i)[j := v]] = g"
    by (simp add: list_update_beyond)
  then show ?thesis
    using assms by simp
qed

lemma py_store_length: "py_store xs i v = Inr ys \<Longrightarrow> length ys = length xs"
  by (auto simp: py_store_def Let_def split: if_splits)

lemma py_index_mem: "py_index xs i = Inr x \<Longrightarrow> x \<in> set xs"
  by (auto simp: py_index_def Let_def split: if_splits)

lemma py_store_set: "py_store xs i v = Inr ys \<Longrightarrow> set ys \<subseteq> insert v (set xs)"
  by (auto simp: py_store_def Let_def split: if_splits
      dest!: set_update_subset_insert [THEN subsetD])

lemma set_cell_shape:
  assumes "set_cell g i j v = Inr g'" "shape g h w"
  shows "shape g' h w"
proof -
  from assms(1) obtain row row' where r: "py_index g i = Inr row" "py_store row j v = Inr row'"
    "py_store g i row' = Inr g'"
    by (auto simp: set_cell_def split: sum.splits)
  have "length row' = nat w"
    using py_index_mem [OF r(1)] py_store_length [OF r(2)] assms(2) by (simp add: shape_def)
  then show ?thesis
    using py_store_length [OF r(3)] py_store_set [OF r(3)] assms(2)
    by (auto simp: shape_def)
qed

section \<open>One step of the world\<close>

lemma length_add_one: "length (add_one obj i segs) = length segs"
  by (simp add: add_one_def)

lemma nth_add_one:
  assumes "inj_on obj {..<length segs}" "i < length segs" "j < length segs"
  shows "add_one obj i segs ! j = (if j = i then shift (segs ! j) else segs ! j)"
  using assms by (auto simp: add_one_def inj_on_def)

lemma fold_add_one:
  assumes "inj_on obj {..<length segs}" "n \<le> length segs"
  shows "length (fold (add_one obj) [k..<n] segs) = length segs
         \<and> (\<forall>j < length segs. fold (add_one obj) [k..<n] segs ! j
               = (if k \<le> j \<and> j < n then shift (segs ! j) else segs ! j))"
  using assms(2)
proof (induction n)
  case 0
  then show ?case by simp
next
  case (Suc n)
  let ?xs = "fold (add_one obj) [k..<n] segs"
  have ih: "length ?xs = length segs"
    "\<forall>j < length segs. ?xs ! j = (if k \<le> j \<and> j < n then shift (segs ! j) else segs ! j)"
    using Suc by simp_all
  show ?case
  proof (cases "k \<le> n")
    case True
    then have eq: "fold (add_one obj) [k..<Suc n] segs = add_one obj n ?xs"
      by simp
    have n: "n < length ?xs" and inj: "inj_on obj {..<length ?xs}"
      using ih(1) Suc.prems assms(1) by simp_all
    have "add_one obj n ?xs ! j = (if k \<le> j \<and> j < Suc n then shift (segs ! j) else segs ! j)"
      if "j < length segs" for j
    proof -
      have "add_one obj n ?xs ! j = (if j = n then shift (?xs ! j) else ?xs ! j)"
        using nth_add_one [OF inj n, of j] that ih(1) by simp
      also have "\<dots> = (if k \<le> j \<and> j < Suc n then shift (segs ! j) else segs ! j)"
        using ih(2) that True by (cases "j = n") (simp_all add: less_Suc_eq)
      finally show ?thesis .
    qed
    then show ?thesis
      unfolding eq by (simp add: length_add_one ih(1))
  next
    case False
    then show ?thesis
      using ih by auto
  qed
qed

lemma fold_add_one_tail:
  assumes "inj_on obj {..<Suc (length rest)}"
  shows "fold (add_one obj) [1..<Suc (length rest)] (s0 # rest) = s0 # map shift rest"
proof (rule nth_equalityI)
  show "length (fold (add_one obj) [1..<Suc (length rest)] (s0 # rest))
          = length (s0 # map shift rest)"
    using fold_add_one [of obj "s0 # rest" "Suc (length rest)" 1] assms by simp
next
  fix j
  assume "j < length (fold (add_one obj) [1..<Suc (length rest)] (s0 # rest))"
  then have j: "j < length (s0 # rest)"
    using fold_add_one [of obj "s0 # rest" "Suc (length rest)" 1] assms by simp
  then show "fold (add_one obj) [1..<Suc (length rest)] (s0 # rest) ! j
               = (s0 # map shift rest) ! j"
    using fold_add_one [of obj "s0 # rest" "Suc (length rest)" 1] assms
    by (cases j) auto
qed

lemma add_one_front:
  assumes "inj_on obj {..<Suc (Suc (length rest))}"
  shows "add_one obj 1 (add_one obj 0 (s0 # s1 # rest)) = shift s0 # shift s1 # rest"
proof (rule nth_equalityI)
  show "length (add_one obj 1 (add_one obj 0 (s0 # s1 # rest)))
          = length (shift s0 # shift s1 # rest)"
    by (simp add: length_add_one)
next
  fix j
  assume "j < length (add_one obj 1 (add_one obj 0 (s0 # s1 # rest)))"
  then have j: "j < Suc (Suc (length rest))"
    by (simp add: length_add_one)
  have "add_one obj 1 (add_one obj 0 (s0 # s1 # rest)) ! j
          = (if j = 1 then shift (add_one obj 0 (s0 # s1 # rest) ! j)
             else add_one obj 0 (s0 # s1 # rest) ! j)"
    using nth_add_one [of obj "add_one obj 0 (s0 # s1 # rest)" 1 j] assms j
    by (simp add: length_add_one)
  moreover have "add_one obj 0 (s0 # s1 # rest) ! j
          = (if j = 0 then shift ((s0 # s1 # rest) ! j) else (s0 # s1 # rest) ! j)"
    using nth_add_one [of obj "s0 # s1 # rest" 0 j] assms j by simp
  ultimately show "add_one obj 1 (add_one obj 0 (s0 # s1 # rest)) ! j
                     = (shift s0 # shift s1 # rest) ! j"
    by (cases j) (auto simp: nth_Cons')
qed

text \<open>
  For pairwise distinct list objects the additions in place are additions at
  single positions.
\<close>

lemma step_shared_distinct:
  assumes "inj_on obj {..<length (segments (snake w))}"
  shows "step_shared obj w =
     (case segments (snake w) of
        [] \<Rightarrow> Inl IndexError
      | s0 # rest \<Rightarrow>
          (case (if fst s0 = - 1
                 then (case rest of
                         [] \<Rightarrow> Inl IndexError
                       | s1 # rest' \<Rightarrow> Inr (shift s0 # shift s1 # rest'))
                 else Inr (s0 # map shift rest)) of
             Inl e \<Rightarrow> Inl e
           | Inr segs \<Rightarrow>
               (case matrix_moves (snd (hd segs)) of
                  None \<Rightarrow> Inl KeyError
                | Some m \<Rightarrow>
                    Inr (w\<lparr>snake := (snake w)\<lparr>segments := segs\<rparr>,
                           pos := (fst (pos w) + fst m, snd (pos w) + snd m)\<rparr>))))"
proof (cases "segments (snake w)")
  case Nil
  then show ?thesis by (simp add: step_shared_def)
next
  case (Cons s0 rest)
  show ?thesis
  proof (cases "fst s0 = - 1")
    case False
    then show ?thesis
      using Cons assms fold_add_one_tail [of obj rest s0]
      by (simp add: step_shared_def del: upt_Suc split: option.splits)
  next
    case True
    show ?thesis
    proof (cases rest)
      case Nil
      then show ?thesis
        using Cons True by (simp add: step_shared_def)
    next
      case (Cons s1 rest')
      then show ?thesis
        using \<open>segments (snake w) = s0 # rest\<close> True assms add_one_front [of obj rest' s0 s1]
        by (simp add: step_shared_def split: option.splits)
    qed
  qed
qed

lemma step_distinct:
  "step w =
     (case segments (snake w) of
        [] \<Rightarrow> Inl IndexError
      | s0 # rest \<Rightarrow>
          (case (if fst s0 = - 1
                 then (case rest of
                         [] \<Rightarrow> Inl IndexError
                       | s1 # rest' \<Rightarrow> Inr (shift s0 # shift s1 # rest'))
                 else Inr (s0 # map shift rest)) of
             Inl e \<Rightarrow> Inl e
           | Inr segs \<Rightarrow>
               (case matrix_moves (snd (hd segs)) of
                  None \<Rightarrow> Inl KeyError
                | Some m \<Rightarrow>
                    Inr (w\<lparr>snake := (snake w)\<lparr>segments := segs\<rparr>,
                           pos := (fst (pos w) + fst m, snd (pos w) + snd m)\<rparr>))))"
  unfolding step_def by (rule step_shared_distinct) simp

text \<open>
  Claim C1, as amended. Take a world whose snake has segments that are pairwise
  distinct list objects, a front segment with one of the four headings, and a
  second segment behind a queued turn. Then \<^verbatim>\<open>step\<close> returns without raising,
  wherever the head is and whatever the grid holds. With distance \<open>-1\<close> in
  front it adds one to the distances of the first two segments and to no
  other; otherwise it adds one to the distance of every segment but the first.
  It then moves the head one cell in the heading of the first segment: a row
  up for N, a row down for S, a column right for E, a column left for W. No
  other field of the snake or the world changes.
\<close>

theorem step_two_case_rule:
  assumes "segments (snake w) = (d0, h0) # rest"
    and "inj_on obj {..<length (segments (snake w))}"
    and "d0 = - 1 \<longrightarrow> rest \<noteq> []"
    and "h0 \<in> {''N'', ''S'', ''E'', ''W''}"
  shows "step_shared obj w =
           Inr (w\<lparr>snake := (snake w)\<lparr>segments :=
                      (if d0 = - 1
                       then (0, h0) # (fst (hd rest) + 1, snd (hd rest)) # tl rest
                       else (d0, h0) # map (\<lambda>seg. (fst seg + 1, snd seg)) rest)\<rparr>,
                  pos := (if h0 = ''N'' then (fst (pos w) - 1, snd (pos w))
                          else if h0 = ''S'' then (fst (pos w) + 1, snd (pos w))
                          else if h0 = ''E'' then (fst (pos w), snd (pos w) + 1)
                          else (fst (pos w), snd (pos w) - 1))\<rparr>)"
proof (cases "d0 = - 1")
  case True
  with assms(3) obtain s1 rest' where rest: "rest = s1 # rest'"
    by (cases rest) auto
  from assms(4) show ?thesis
    unfolding step_shared_distinct [OF assms(2)]
    using True assms(1) rest
    by (auto simp: shift_def matrix_moves_def)
next
  case False
  have "shift = (\<lambda>seg. (fst seg + 1, snd seg))"
    by (rule ext) (simp add: shift_def)
  with assms(4) show ?thesis
    unfolding step_shared_distinct [OF assms(2)]
    using False assms(1)
    by (auto simp: matrix_moves_def)
qed

theorem step_two_case_rule_witness:
  "step_shared (\<lambda>i. i)
     \<lparr>snake = \<lparr>length_snake = 3, chars = default_chars,
                 segments = [(- 1, ''S''), (0, ''E'')]\<rparr>,
       pos = (8, 5), height = 16, width = 16, foodchar = ''*'', data = []\<rparr>
   = Inr \<lparr>snake = \<lparr>length_snake = 3, chars = default_chars,
                     segments = [(0, ''S''), (1, ''E'')]\<rparr>,
           pos = (9, 5), height = 16, width = 16, foodchar = ''*'', data = []\<rparr>"
  using step_two_case_rule
    [of "\<lparr>snake = \<lparr>length_snake = 3, chars = default_chars,
                     segments = [(- 1, ''S''), (0, ''E'')]\<rparr>,
           pos = (8, 5), height = 16, width = 16, foodchar = ''*'', data = []\<rparr>"
        "- 1" "''S''" "[(0, ''E'')]" "\<lambda>i. i"]
  by simp

text \<open>
  Claim C1 as stated fails, in two ways. A snake made with the one segment
  \<^verbatim>\<open>[-1, 'E']\<close> passes the check of its constructor, a world is made from
  it, and \<^verbatim>\<open>step\<close> raises IndexError on that world. And a snake made with the
  same list object \<^verbatim>\<open>[0, 'E']\<close> at both positions passes the check too; on
  the world made from it \<^verbatim>\<open>step\<close> adds one at position 1 and therefore to the
  head segment as well, leaving \<^verbatim>\<open>[[1, 'E'], [1, 'E']]\<close>.
\<close>

theorem step_lone_queued_raises:
  "Snake_init 2 [(- 1, ''E'')] default_chars = Inr lone_queued_snake
   \<and> World_init lone_queued_snake (Some [0, 2]) 1 4 ''*'' [0, 3]
       = Some (Inr (lone_queued_world, []))
   \<and> step lone_queued_world = Inl IndexError
   \<and> step_shared (\<lambda>i. 0) lone_queued_world = Inl IndexError
   \<and> Snake_init 4 [(0, ''E''), (0, ''E'')] default_chars = Inr paired_snake
   \<and> World_init paired_snake None 16 16 ''*'' [3, 7] = Some (Inr (paired_world, []))
   \<and> bind_res (step_shared (\<lambda>i. 0) paired_world) (\<lambda>w. Inr (segments (snake w), pos w))
       = Inr ([(1, ''E''), (1, ''E'')], (8, 5))"
  by code_simp

section \<open>Segments that outlive the tail\<close>

text \<open>\<^verbatim>\<open>grow\<close> adds to the length and leaves the segments and the glyphs alone.\<close>

lemma grow_frame:
  "length_snake (grow s n) = length_snake s + n \<and> segments (grow s n) = segments s
   \<and> chars (grow s n) = chars s \<and> grow_snake w n = w\<lparr>snake := grow (snake w) n\<rparr>"
  by (simp add: grow_def grow_snake_def)

text \<open>
  Claim C2 fails on the code. \<^verbatim>\<open>Snake(3)\<close> in the default world, one
  \<^verbatim>\<open>turn('S')\<close> and two calls of \<^verbatim>\<open>step\<close> give the segments
  \<^verbatim>\<open>[[0, 'S'], [2, 'E']]\<close> at length 3: the distance 2 is not below
  \<open>length - 1\<close>, and the constructor itself rejects this list.
\<close>

theorem step_breaks_segment_bound:
  "Snake_init 3 [(0, ''E'')] default_chars = Inr default_snake
   \<and> World_init default_snake None 16 16 ''*'' [3, 7] = Some (Inr (fed_world 3 7, []))
   \<and> bind_res (steps 2 (turn_snake (fed_world 3 7) ''S'')) (\<lambda>w. Inr (snake w))
       = Inr \<lparr>length_snake = 3, chars = default_chars, segments = [(0, ''S''), (2, ''E'')]\<rparr>
   \<and> Snake_init 3 [(0, ''S''), (2, ''E'')] default_chars
       = Inl (Exception ''Snake segments must begin before the tail'')"
  by code_simp

text \<open>
  Claim C8 fails on the code, by the same defect. After \<^verbatim>\<open>turn('S')\<close> and one
  \<^verbatim>\<open>step\<close> the snake of length 3 is drawn on 3 cells. It grows by 1 and
  steps 4 times: its length is 4, the old segment has distance 5, and the
  snake is drawn on 5 cells.
\<close>

theorem grown_snake_overdrawn:
  "World_init default_snake None 16 16 ''*'' [3, 7] = Some (Inr (fed_world 3 7, []))
   \<and> bind_res (steps 1 (turn_snake (fed_world 3 7) ''S'')) (\<lambda>w1.
     bind_res (repr_world w1) (\<lambda>(w2, shown).
     bind_res (steps 4 (grow_snake w2 1)) (\<lambda>w3.
     bind_res (repr_world w3) (\<lambda>(w4, shown').
     Inr (segments (snake w1), length_snake (snake w1), snake_cells w2,
          segments (snake w3), length_snake (snake w3), snake_cells w4)))))
     = Inr ([(0, ''S''), (1, ''E'')], 3, 3, [(0, ''S''), (5, ''E'')], 4, 5)"
  by code_simp

section \<open>Food that is eaten\<close>

text \<open>
  Claim C3 fails on the code. In the default world with the food on the cell
  in front of the head, one pass of the game loop moves the head onto the
  food, counts it and blanks the cell; the loop that should place new food
  tests \<^verbatim>\<open>onFood\<close> on the blanked cell and never runs, so no random number
  is drawn and no cell of the grid holds food. The game goes on without food
  until the snake leaves the grid.
\<close>

theorem eaten_food_not_replaced:
  "World_init default_snake None 16 16 ''*'' [8, 5] = Some (Inr (fed_world 8 5, []))
   \<and> food_cells (fed_world 8 5) = 1
   \<and> map_option (map_sum id (\<lambda>(stop, w, eaten, rs). (stop, pos w, food_cells w, eaten, rs)))
        (tick 3 (fed_world 8 5) 0 [1, 1, 2, 2])
       = Some (Inr (False, (8, 5), 0, 1, [1, 1, 2, 2]))
   \<and> map_option (map_sum id (\<lambda>(w, eaten). (pos w, food_cells w, eaten)))
        (run 20 (fed_world 8 5) [1, 1, 2, 2])
       = Some (Inr ((8, 16), 0, 1))"
  by code_simp

section \<open>Construction\<close>

lemma bind_res_Inr_iff:
  "bind_res m f = Inr y \<longleftrightarrow> (\<exists>x. m = Inr x \<and> f x = Inr y)"
  by (cases m) auto

lemma insertSnake_frame: "insertSnake w = Inr w' \<Longrightarrow> w' = w\<lparr>data := data w'\<rparr>"
  by (auto simp: insertSnake_def bind_res_Inr_iff split: option.splits)

lemma placeFood_frame:
  "placeFood w rs = Some (Inr (w', rs')) \<Longrightarrow> w' = w\<lparr>data := data w'\<rparr>"
  by (induction w rs rule: placeFood.induct) (auto split: if_splits sum.splits)

lemma check_segments_Inr:
  "check_segments len segs = Inr u \<longleftrightarrow> (\<forall>seg \<in> set segs. fst seg < len - 1)"
  by (induction segs) auto

section \<open>The shared default list\<close>

text \<open>
  Claim C9. Two snakes made without a \<^verbatim>\<open>segments\<close> argument refer to the same
  list object, the default one (the snake of the module-level
  \<^verbatim>\<open>s = Snake(3)\<close> too). When one of them turns to \<open>d\<close>, the segments of the
  other begin with \<open>(-1, d)\<close>; and so do those of every snake made without
  the argument afterwards, which are therefore not \<^verbatim>\<open>[[0, 'E']]\<close>.
\<close>

theorem default_segments_shared:
  assumes "Snake_new st l1 None c1 = Inr a" and "Snake_new st l2 None c2 = Inr b"
  shows "obj_segments a = default_segments \<and> obj_segments b = default_segments
     \<and> segments (snake_at (turn_obj st a d) b) = (- 1, d) # segments (snake_at st b)
     \<and> (\<forall>l3 c3 c. Snake_new (turn_obj st a d) l3 None c3 = Inr c \<longrightarrow>
          segments (snake_at (turn_obj st a d) c) = (- 1, d) # st default_segments
          \<and> segments (snake_at (turn_obj st a d) c) \<noteq> [(0, ''E'')])
     \<and> module_store default_segments = [(0, ''E'')]
     \<and> module_snake
         = Inr \<lparr>obj_length = 3, obj_chars = default_chars, obj_segments = default_segments\<rparr>"
proof -
  have new: "obj_segments x = default_segments" if "Snake_new s l None c = Inr x" for s l c x
    using that by (cases "Snake_init l (s default_segments) c") (auto simp: Snake_new_def)
  have a: "obj_segments a = default_segments" and b: "obj_segments b = default_segments"
    using assms new by blast+
  have m: "module_snake
         = Inr \<lparr>obj_length = 3, obj_chars = default_chars, obj_segments = default_segments\<rparr>"
    by (simp add: module_snake_def Snake_new_def module_store_def Snake_init_def)
  have c: "segments (snake_at (turn_obj st a d) x) = (- 1, d) # st default_segments"
    if "obj_segments x = default_segments" for x
    using that a by (simp add: snake_at_def turn_obj_def)
  have ms: "module_store default_segments = [(0, ''E'')]"
    by (simp add: module_store_def)
  have sb: "segments (snake_at st b) = st default_segments"
    using b by (simp add: snake_at_def)
  show ?thesis
    using a b m ms sb c [OF b] c [OF new] by auto
qed

theorem default_segments_shared_witness:
  "Snake_new module_store 3 None default_chars
     = Inr \<lparr>obj_length = 3, obj_chars = default_chars, obj_segments = default_segments\<rparr>
   \<and> Snake_new module_store 5 None default_chars
     = Inr \<lparr>obj_length = 5, obj_chars = default_chars, obj_segments = default_segments\<rparr>
   \<and> segments (snake_at
        (turn_obj module_store
           \<lparr>obj_length = 3, obj_chars = default_chars, obj_segments = default_segments\<rparr> ''S'')
        \<lparr>obj_length = 5, obj_chars = default_chars, obj_segments = default_segments\<rparr>)
     = [(- 1, ''S''), (0, ''E'')]"
proof -
  have h1: "Snake_new module_store 3 None default_chars
     = Inr \<lparr>obj_length = 3, obj_chars = default_chars, obj_segments = default_segments\<rparr>"
    and h2: "Snake_new module_store 5 None default_chars
     = Inr \<lparr>obj_length = 5, obj_chars = default_chars, obj_segments = default_segments\<rparr>"
    by (simp_all add: Snake_new_def module_store_def Snake_init_def)
  show ?thesis
    using h1 h2 default_segments_shared [OF h1 h2, of "''S''"]
    by (simp add: snake_at_def module_store_def)
qed

section \<open>Reading the cell under the head\<close>

lemma py_index_error: "py_index xs i = Inl e \<Longrightarrow> e = IndexError"
  by (auto simp: py_index_def Let_def split: if_splits)

lemma py_index_at_length: "length xs = nat n \<Longrightarrow> py_index xs n = Inl IndexError"
  by (auto simp: py_index_def Let_def)

lemma py_index_last: "length xs = nat n \<Longrightarrow> 0 < n \<Longrightarrow> py_index xs (- 1) = Inr (xs ! nat (n - 1))"
  by (auto simp: py_index_def Let_def nat_diff_distrib)

lemma get_cell_at_height:
  assumes "shape g h w" and "i = h \<or> j = w"
  shows "get_cell g i j = Inl IndexError"
proof (cases "py_index g i")
  case (Inl e)
  then show ?thesis
    using py_index_error [OF Inl] by (simp add: get_cell_def)
next
  case (Inr row)
  then have "i \<noteq> h"
    using assms(1) py_index_at_length [of g h] by (auto simp: shape_def)
  moreover have "length row = nat w"
    using py_index_mem [OF Inr] assms(1) by (simp add: shape_def)
  ultimately show ?thesis
    using assms(2) Inr py_index_at_length [of row w] by (simp add: get_cell_def)
qed

lemma loss_on_grid:
  assumes "grid_ok w"
  shows "loss w =
           Inr (\<not> (in_range (fst (pos w)) (height w) \<and> in_range (snd (pos w)) (width w))
                \<or> data w ! nat (fst (pos w)) ! nat (snd (pos w)) \<in> set (tl (chars (snake w))))"
  using assms get_cell_in_range [of "data w" "height w" "width w" "fst (pos w)" "snd (pos w)"]
  by (auto simp: loss_def grid_ok_def)

text \<open>
  Claim C10. On a well-shaped grid \<^verbatim>\<open>onFood\<close> raises IndexError when the row of
  the head is the height or its column is the width. With row \<open>-1\<close> it reads
  the last row, with column \<open>-1\<close> the last column: in the default world with
  the food in the last row below the head, a turn to the north and nine steps
  take the head to row \<open>-1\<close>, where \<^verbatim>\<open>onFood\<close> returns True (and \<^verbatim>\<open>loss\<close>
  too). \<^verbatim>\<open>loss\<close> raises on no well-shaped grid.
\<close>

theorem onFood_unchecked_index:
  "(grid_ok w \<and> (fst (pos w) = height w \<or> snd (pos w) = width w) \<longrightarrow>
      onFood w = Inl IndexError)
   \<and> (grid_ok w \<and> fst (pos w) = - 1 \<and> 0 < height w \<and> in_range (snd (pos w)) (width w) \<longrightarrow>
      onFood w = Inr (data w ! nat (height w - 1) ! nat (snd (pos w)) = foodchar w))
   \<and> (grid_ok w \<and> snd (pos w) = - 1 \<and> 0 < width w \<and> in_range (fst (pos w)) (height w) \<longrightarrow>
      onFood w = Inr (data w ! nat (fst (pos w)) ! nat (width w - 1) = foodchar w))
   \<and> World_init default_snake None 16 16 ''*'' [15, 4] = Some (Inr (fed_world 15 4, []))
   \<and> bind_res (steps 9 (turn_snake (fed_world 15 4) ''N'')) (\<lambda>w9.
      bind_res (onFood w9) (\<lambda>food. Inr (pos w9, food))) = Inr ((- 1, 4), True)
   \<and> (grid_ok w \<longrightarrow> (\<exists>lost. loss w = Inr lost))"
proof (intro conjI impI)
  assume "grid_ok w \<and> (fst (pos w) = height w \<or> snd (pos w) = width w)"
  then show "onFood w = Inl IndexError"
    using get_cell_at_height [of "data w" "height w" "width w" "fst (pos w)" "snd (pos w)"]
    by (simp add: onFood_def grid_ok_def)
next
  assume a: "grid_ok w \<and> fst (pos w) = - 1 \<and> 0 < height w \<and> in_range (snd (pos w)) (width w)"
  then have "py_index (data w) (- 1) = Inr (data w ! nat (height w - 1))"
    by (simp add: grid_ok_def shape_def py_index_last)
  moreover have "length (data w ! nat (height w - 1)) = nat (width w)"
    using a by (simp add: grid_ok_def shape_def)
  ultimately show "onFood w = Inr (data w ! nat (height w - 1) ! nat (snd (pos w)) = foodchar w)"
    using a by (simp add: onFood_def get_cell_def py_index_in_range in_range_def)
next
  assume a: "grid_ok w \<and> snd (pos w) = - 1 \<and> 0 < width w \<and> in_range (fst (pos w)) (height w)"
  then have "in_range (fst (pos w)) (int (length (data w)))"
    by (simp add: grid_ok_def shape_def in_range_def)
  then have "py_index (data w) (fst (pos w)) = Inr (data w ! nat (fst (pos w)))"
    by (rule py_index_in_range)
  moreover have "length (data w ! nat (fst (pos w))) = nat (width w)"
    using a by (simp add: grid_ok_def shape_def in_range_def)
  ultimately show "onFood w = Inr (data w ! nat (fst (pos w)) ! nat (width w - 1) = foodchar w)"
    using a by (simp add: onFood_def get_cell_def py_index_last)
next
  show "World_init default_snake None 16 16 ''*'' [15, 4] = Some (Inr (fed_world 15 4, []))"
    by code_simp
next
  show "bind_res (steps 9 (turn_snake (fed_world 15 4) ''N'')) (\<lambda>w9.
      bind_res (onFood w9) (\<lambda>food. Inr (pos w9, food))) = Inr ((- 1, 4), True)"
    by code_simp
next
  assume "grid_ok w"
  then show "\<exists>lost. loss w = Inr lost"
    by (simp add: loss_on_grid)
qed

theorem onFood_unchecked_index_witness:
  "grid_ok ((fed_world 15 4)\<lparr>pos := (16, 4)\<rparr>)
   \<and> onFood ((fed_world 15 4)\<lparr>pos := (16, 4)\<rparr>) = Inl IndexError
   \<and> grid_ok ((fed_world 15 4)\<lparr>pos := (- 1, 4)\<rparr>)
   \<and> onFood ((fed_world 15 4)\<lparr>pos := (- 1, 4)\<rparr>) = Inr True
   \<and> loss ((fed_world 15 4)\<lparr>pos := (- 1, 4)\<rparr>) = Inr True
   \<and> grid_ok ((fed_world 15 4)\<lparr>pos := (8, - 1)\<rparr>)
   \<and> onFood ((fed_world 15 4)\<lparr>pos := (8, - 1)\<rparr>) = Inr False"
proof -
  have g: "grid_ok ((fed_world 15 4)\<lparr>pos := (16, 4)\<rparr>)"
    "grid_ok ((fed_world 15 4)\<lparr>pos := (- 1, 4)\<rparr>)"
    "grid_ok ((fed_world 15 4)\<lparr>pos := (8, - 1)\<rparr>)"
    by code_simp+
  have v: "data (fed_world 15 4) ! 15 ! 4 = ''*''" "data (fed_world 15 4) ! 8 ! 15 = '' ''"
    "loss ((fed_world 15 4)\<lparr>pos := (- 1, 4)\<rparr>) = Inr True"
    by code_simp+
  show ?thesis
    using g v
      onFood_unchecked_index [of "(fed_world 15 4)\<lparr>pos := (16, 4)\<rparr>"]
      onFood_unchecked_index [of "(fed_world 15 4)\<lparr>pos := (- 1, 4)\<rparr>"]
      onFood_unchecked_index [of "(fed_world 15 4)\<lparr>pos := (8, - 1)\<rparr>"]
    by (simp add: in_range_def fed_world_def)
qed

section \<open>What the drawing loops and the food leave on the grid\<close>

lemma nth_paint:
  assumes "shape g h w" "in_range i h" "in_range j w" "in_range a h" "in_range b w"
  shows "g[nat i := (g ! nat i)[nat j := v]] ! nat a ! nat b
           = (if a = i \<and> b = j then v else g ! nat a ! nat b)"
proof -
  have "nat i < length g" "nat a < length g" "nat j < length (g ! nat i)"
    using assms by (auto simp: shape_def in_range_def)
  moreover have "nat i = nat a \<longleftrightarrow> a = i" "nat j = nat b \<longleftrightarrow> b = j"
    using assms by (auto simp: in_range_def)
  ultimately show ?thesis
    by (auto simp: nth_list_update)
qed

lemma draw_pieces_shape:
  "draw_pieces h w d c n b = Inr b' \<Longrightarrow> shape (canvas b) h w \<Longrightarrow> shape (canvas b') h w"
proof (induction n arbitrary: b)
  case 0
  then show ?case by simp
next
  case (Suc n)
  from Suc.prems(1) obtain g m
    where g: "set_cell (canvas b) (fst (pointer b)) (snd (pointer b)) c = Inr g"
      and r: "draw_pieces h w d c n
                \<lparr>canvas = g,
                 pointer = (fst (pointer b) - fst m, snd (pointer b) - snd m),
                 move = Some m\<rparr> = Inr b'"
    by (auto simp: bind_res_Inr_iff split: if_splits option.splits)
  show ?case
    using Suc.IH [OF r] set_cell_shape [OF g Suc.prems(2)] by simp
qed

lemma draw_pieces_cases:
  "draw_pieces h w d c n b = Inr b' \<Longrightarrow>
     b' = b \<or> (in_range (fst (pointer b)) h \<and> in_range (snd (pointer b)) w)"
  by (cases n) (auto split: if_splits)

lemma draw_segments_shape:
  "draw_segments h w chs len segs b = Inr b' \<Longrightarrow> shape (canvas b) h w \<Longrightarrow>
     shape (canvas b') h w"
proof (induction segs arbitrary: b)
  case Nil
  then show ?case by simp
next
  case (Cons seg rest)
  from Cons.prems(1) obtain c n b1
    where p: "draw_pieces h w (snd seg) c n b = Inr b1"
      and r: "draw_segments h w chs len rest b1 = Inr b'"
    by (auto simp: bind_res_Inr_iff)
  show ?case
    using Cons.IH [OF r] draw_pieces_shape [OF p Cons.prems(2)] by simp
qed

lemma draw_segments_cases:
  "draw_segments h w chs len segs b = Inr b' \<Longrightarrow>
     b' = b \<or> (in_range (fst (pointer b)) h \<and> in_range (snd (pointer b)) w)"
proof (induction segs arbitrary: b)
  case Nil
  then show ?case by simp
next
  case (Cons seg rest)
  from Cons.prems(1) obtain c n b1
    where p: "draw_pieces h w (snd seg) c n b = Inr b1"
      and r: "draw_segments h w chs len rest b1 = Inr b'"
    by (auto simp: bind_res_Inr_iff)
  show ?case
    using Cons.IH [OF r] draw_pieces_cases [OF p] by auto
qed

text \<open>
  When \<^verbatim>\<open>insertSnake\<close> returns, the head is on the grid, the grid has kept its
  shape, and the cell of the head holds the head glyph.
\<close>

lemma insertSnake_head:
  assumes ok: "insertSnake w = Inr w'" and g: "grid_ok w"
  shows "in_range (fst (pos w)) (height w) \<and> in_range (snd (pos w)) (width w)
         \<and> grid_ok w'
         \<and> py_index (chars (snake w)) 0
             = Inr (data w' ! nat (fst (pos w)) ! nat (snd (pos w)))"
proof -
  from ok obtain b m tailchar g1 headchar g2
    where d: "draw_segments (height w) (width w) (chars (snake w)) (length_snake (snake w))
                (segments (snake w)) \<lparr>canvas = data w, pointer = pos w, move = None\<rparr> = Inr b"
      and m: "move b = Some m"
      and g1: "set_cell (canvas b) (fst (pointer b) + fst m) (snd (pointer b) + snd m) tailchar
                 = Inr g1"
      and hc: "py_index (chars (snake w)) 0 = Inr headchar"
      and g2: "set_cell g1 (fst (pos w)) (snd (pos w)) headchar = Inr g2"
      and w': "w' = w\<lparr>data := g2\<rparr>"
    by (auto simp: insertSnake_def bind_res_Inr_iff split: option.splits)
  have "b \<noteq> \<lparr>canvas = data w, pointer = pos w, move = None\<rparr>"
    using m by auto
  then have r: "in_range (fst (pos w)) (height w)" "in_range (snd (pos w)) (width w)"
    using draw_segments_cases [OF d] by auto
  have "shape (canvas b) (height w) (width w)"
    using draw_segments_shape [OF d] g by (simp add: grid_ok_def)
  then have s1: "shape g1 (height w) (width w)"
    by (rule set_cell_shape [OF g1])
  then have g2': "g2 = g1[nat (fst (pos w)) := (g1 ! nat (fst (pos w)))[nat (snd (pos w)) := headchar]]"
    using g2 set_cell_in_range [OF s1 r] by simp
  have "g2 ! nat (fst (pos w)) ! nat (snd (pos w)) = headchar"
    unfolding g2' using nth_paint [OF s1 r r] by simp
  moreover have "shape g2 (height w) (width w)"
    by (rule set_cell_shape [OF g2 s1])
  ultimately show ?thesis
    using r hc w' by (simp add: grid_ok_def)
qed

text \<open>
  When \<^verbatim>\<open>placeFood\<close> returns, the grid has kept its shape, and a cell holds
  what it held before unless it was blank and now holds the food.
\<close>

lemma placeFood_cell:
  assumes "placeFood w rs = Some (Inr (w', rs'))" and "grid_ok w"
    and "in_range a (height w)" and "in_range b (width w)"
  shows "grid_ok w'
         \<and> (data w' ! nat a ! nat b = data w ! nat a ! nat b
            \<or> data w ! nat a ! nat b = '' '' \<and> data w' ! nat a ! nat b = foodchar w)"
  using assms
proof (induction w rs rule: placeFood.induct)
  case (1 w)
  then show ?case by (simp split: if_splits)
next
  case (2 w r1)
  then show ?case by (simp split: if_splits)
next
  case (3 w r1 r2 rs)
  let ?i = "int r1 mod height w" and ?j = "int r2 mod width w"
  from "3.prems"(1) have pos: "0 < height w" "0 < width w"
    by (auto split: if_splits)
  then have r: "in_range ?i (height w)" "in_range ?j (width w)"
    by (simp_all add: in_range_def)
  have s: "shape (data w) (height w) (width w)"
    using "3.prems"(2) by (simp add: grid_ok_def)
  have get: "get_cell (data w) ?i ?j = Inr (data w ! nat ?i ! nat ?j)"
    by (rule get_cell_in_range [OF s r])
  have set: "set_cell (data w) ?i ?j (foodchar w)
               = Inr ((data w)[nat ?i := (data w ! nat ?i)[nat ?j := foodchar w]])"
    by (rule set_cell_in_range [OF s r])
  show ?case
  proof (cases "data w ! nat ?i ! nat ?j = '' ''")
    case True
    then have w': "w' = w\<lparr>data := (data w)[nat ?i := (data w ! nat ?i)[nat ?j := foodchar w]]\<rparr>"
      using "3.prems"(1) pos get set by simp
    show ?thesis
      unfolding w'
      using True nth_paint [OF s r "3.prems"(3,4)] shape_update [OF s]
      by (auto simp: grid_ok_def)
  next
    case False
    then have "placeFood w rs = Some (Inr (w', rs'))"
      using "3.prems"(1) pos get by simp
    then show ?thesis
      using "3.IH" [OF _ get False] pos "3.prems"(2,3,4) by simp
  qed
qed

section \<open>Loss\<close>

lemma gen_grid_ok: "grid_ok (gen w)"
  by (simp add: gen_def grid_ok_def shape_def)

text \<open>
  Claim C4, as amended. On a well-shaped grid, with the four glyphs of the
  snake, \<^verbatim>\<open>loss\<close> returns True exactly when the head is outside the grid or
  the cell under it holds the horizontal, the vertical or the tail glyph.
  Right after a construction that returned it is False, provided the head
  glyph is none of those three (nor, if the head glyph is the blank, the food
  glyph).
\<close>

theorem loss_spec:
  "(grid_ok w \<and> chars (snake w) = [headc, horizc, vertc, tailc] \<longrightarrow>
      loss w = Inr (\<not> (in_range (fst (pos w)) (height w) \<and> in_range (snd (pos w)) (width w))
                    \<or> data w ! nat (fst (pos w)) ! nat (snd (pos w)) \<in> {horizc, vertc, tailc}))
   \<and> (World_init s p h wd fc rs = Some (Inr (w', rs'))
       \<and> chars s = [headc, horizc, vertc, tailc] \<and> headc \<notin> {horizc, vertc, tailc}
       \<and> (headc = '' '' \<longrightarrow> fc \<notin> {horizc, vertc, tailc}) \<longrightarrow>
      loss w' = Inr False)"
proof (intro conjI impI)
  assume "grid_ok w \<and> chars (snake w) = [headc, horizc, vertc, tailc]"
  then show "loss w = Inr (\<not> (in_range (fst (pos w)) (height w) \<and> in_range (snd (pos w)) (width w))
                    \<or> data w ! nat (fst (pos w)) ! nat (snd (pos w)) \<in> {horizc, vertc, tailc})"
    by (simp add: loss_on_grid)
next
  assume a: "World_init s p h wd fc rs = Some (Inr (w', rs'))
       \<and> chars s = [headc, horizc, vertc, tailc] \<and> headc \<notin> {horizc, vertc, tailc}
       \<and> (headc = '' '' \<longrightarrow> fc \<notin> {horizc, vertc, tailc})"
  from a obtain col w1
    where w1: "insertSnake (gen \<lparr>snake = s, pos = (hd (init_pos p h wd), col), height = h,
                 width = wd, foodchar = fc, data = [[]]\<rparr>) = Inr w1"
      and pf: "placeFood w1 rs = Some (Inr (w', rs'))"
    by (auto simp: World_init_def split: sum.splits if_splits)
  define w0 where "w0 = gen \<lparr>snake = s, pos = (hd (init_pos p h wd), col), height = h,
                 width = wd, foodchar = fc, data = [[]]\<rparr>"
  have g0: "grid_ok w0"
    unfolding w0_def by (rule gen_grid_ok)
  note w1 = w1 [folded w0_def]
  have f1: "w1 = w0\<lparr>data := data w1\<rparr>"
    by (rule insertSnake_frame [OF w1])
  have f2: "w' = w1\<lparr>data := data w'\<rparr>"
    by (rule placeFood_frame [OF pf])
  have w0: "snake w0 = s" "foodchar w0 = fc"
    by (simp_all add: w0_def gen_def)
  have eq1: "snake w1 = s" "foodchar w1 = fc" "pos w1 = pos w0" "height w1 = height w0"
    "width w1 = width w0"
    using w0 by (subst f1, simp)+
  have eq2: "snake w' = s" "pos w' = pos w0" "height w' = height w0" "width w' = width w0"
    using eq1 by (subst f2, simp)+
  from insertSnake_head [OF w1 g0]
  have r: "in_range (fst (pos w0)) (height w0)" "in_range (snd (pos w0)) (width w0)"
    and g1: "grid_ok w1"
    and hd: "data w1 ! nat (fst (pos w0)) ! nat (snd (pos w0)) = headc"
    using a w0 by (simp_all add: py_index_def)
  from placeFood_cell [OF pf g1, of "fst (pos w0)" "snd (pos w0)"] r eq1
  have g': "grid_ok w'"
    and c: "data w' ! nat (fst (pos w0)) ! nat (snd (pos w0)) = headc
            \<or> headc = '' '' \<and> data w' ! nat (fst (pos w0)) ! nat (snd (pos w0)) = fc"
    using hd by auto
  show "loss w' = Inr False"
    using loss_on_grid [OF g'] eq2 r c a by auto
qed

theorem loss_spec_witness:
  "grid_ok (fed_world 3 7)
   \<and> chars (snake (fed_world 3 7)) = [''X'', ''-'', ''|'', ''x'']
   \<and> loss (fed_world 3 7) = Inr False
   \<and> loss ((fed_world 3 7)\<lparr>pos := (8, 3)\<rparr>) = Inr True
   \<and> loss ((fed_world 3 7)\<lparr>pos := (8, 16)\<rparr>) = Inr True
   \<and> World_init default_snake None 16 16 ''*'' [3, 7] = Some (Inr (fed_world 3 7, []))"
proof -
  have e: "grid_ok (fed_world 3 7)"
    "chars (snake (fed_world 3 7)) = [''X'', ''-'', ''|'', ''x'']"
    "chars default_snake = [''X'', ''-'', ''|'', ''x'']"
    "loss ((fed_world 3 7)\<lparr>pos := (8, 3)\<rparr>) = Inr True"
    "loss ((fed_world 3 7)\<lparr>pos := (8, 16)\<rparr>) = Inr True"
    "World_init default_snake None 16 16 ''*'' [3, 7] = Some (Inr (fed_world 3 7, []))"
    by code_simp+
  have d: "''X'' \<notin> {''-'', ''|'', ''x''} \<and> (''X'' = '' '' \<longrightarrow> ''*'' \<notin> {''-'', ''|'', ''x''})"
    by simp
  have "loss (fed_world 3 7) = Inr False"
    using e(3,6) d
      loss_spec [of "fed_world 3 7" "''X''" "''-''" "''|''" "''x''" default_snake None 16 16
        "''*''" "[3, 7]" "fed_world 3 7" "[]"]
    by blast
  then show ?thesis
    using e by simp
qed

text \<open>
  Claim C4 as stated fails: the constructors accept a glyph tuple in which the
  head glyph is also the tail glyph, and \<^verbatim>\<open>loss\<close> is True on the world just
  constructed.
\<close>

theorem loss_true_after_construction:
  "Snake_init 3 [(0, ''E'')] [''x'', ''-'', ''|'', ''x''] = Inr twin_snake
   \<and> World_init twin_snake None 16 16 ''*'' [3, 7] = Some (Inr (twin_world, []))
   \<and> loss twin_world = Inr True"
  by code_simp

section \<open>The default game\<close>

lemma default_drawn:
  "insertSnake (gen \<lparr>snake = default_snake, pos = (8, 4), height = 16, width = 16,
                      foodchar = ''*'', data = [[]]\<rparr>) = Inr drawn_world"
  by code_simp

lemma default_World_init:
  "World_init default_snake None 16 16 ''*'' rs = placeFood drawn_world rs"
proof -
  have "py_index (init_pos None 16 16) 1 = Inr 4" "hd (init_pos None 16 16) = 8"
    "\<not> 4 < length_snake default_snake - 1"
    by code_simp+
  then show ?thesis
    by (simp add: World_init_def default_drawn)
qed

lemma drawn_world_cells:
  "grid_ok drawn_world" "height drawn_world = 16" "width drawn_world = 16"
  "pos drawn_world = (8, 4)" "snake drawn_world = default_snake"
  "data drawn_world ! 8 ! 4 = ''X''" "data drawn_world ! 8 ! 3 = ''-''"
  "data drawn_world ! 8 ! 2 = ''x''"
  "\<forall>a \<in> {0..<16}. \<forall>b \<in> {0..<16}.
     (a, b) \<in> {(8, 4), (8, 3), (8, 2)} \<or> data drawn_world ! a ! b = '' ''"
  by code_simp+

text \<open>
  Claim C6. \<^verbatim>\<open>Snake(3)\<close> is made, and whenever \<^verbatim>\<open>World(s)\<close> returns, wherever
  the food fell: the head is at row 8, column 4; the drawing loops put the
  horizontal glyph on columns 4, 3 and 2 of row 8; the finished grid has the
  head glyph at (8,4), the horizontal glyph at (8,3) and the tail glyph at
  (8,2), and every other cell is blank or food; one \<^verbatim>\<open>step\<close> takes the head to
  (8,5), and \<^verbatim>\<open>turn('S')\<close> with one more \<^verbatim>\<open>step\<close> to (9,5).
\<close>

theorem default_scenario:
  assumes "World_init default_snake None 16 16 ''*'' rs = Some (Inr (w, rs'))"
  shows "Snake_init 3 [(0, ''E'')] default_chars = Inr default_snake
     \<and> height w = 16 \<and> width w = 16 \<and> pos w = (8, 4)
     \<and> bind_res (draw_segments 16 16 default_chars 3 [(0, ''E'')]
                   \<lparr>canvas = replicate 16 (replicate 16 '' ''), pointer = (8, 4),
                    move = None\<rparr>)
          (\<lambda>b. Inr (map (\<lambda>j. canvas b ! 8 ! j) [4, 3, 2])) = Inr [''-'', ''-'', ''-'']
     \<and> get_cell (data w) 8 4 = Inr ''X''
     \<and> get_cell (data w) 8 3 = Inr ''-''
     \<and> get_cell (data w) 8 2 = Inr ''x''
     \<and> (\<forall>a \<in> {0..<16}. \<forall>b \<in> {0..<16}.
           (a, b) \<in> {(8, 4), (8, 3), (8, 2)}
           \<or> get_cell (data w) a b = Inr '' '' \<or> get_cell (data w) a b = Inr ''*'')
     \<and> bind_res (step w) (\<lambda>w1. Inr (pos w1)) = Inr (8, 5)
     \<and> bind_res (step w) (\<lambda>w1.
        bind_res (step (turn_snake w1 ''S'')) (\<lambda>w2. Inr (pos w2))) = Inr (9, 5)"
proof -
  have pf: "placeFood drawn_world rs = Some (Inr (w, rs'))"
    using assms by (simp add: default_World_init)
  have fr: "w = drawn_world\<lparr>data := data w\<rparr>"
    by (rule placeFood_frame [OF pf])
  have f: "height w = 16" "width w = 16" "pos w = (8, 4)" "snake w = default_snake"
    "foodchar w = ''*''"
    by (subst fr, simp add: drawn_world_def)+
  have cell: "grid_ok w \<and> (data w ! nat a ! nat b = data drawn_world ! nat a ! nat b
            \<or> data drawn_world ! nat a ! nat b = '' '' \<and> data w ! nat a ! nat b = ''*'')"
    if "in_range a 16" "in_range b 16" for a b
    using placeFood_cell [OF pf drawn_world_cells(1), of a b] that
    by (simp add: drawn_world_cells(2,3)) (simp add: drawn_world_def)
  have r: "in_range 8 16" "in_range 4 16" "in_range 3 16" "in_range 2 16"
    by (simp_all add: in_range_def)
  have s: "shape (data w) 16 16"
    using cell [OF r(1,2)] f by (simp add: grid_ok_def)
  have get: "get_cell (data w) a b = Inr (data w ! nat a ! nat b)"
    if "in_range a 16" "in_range b 16" for a b
    by (rule get_cell_in_range [OF s that])
  have c4: "get_cell (data w) 8 4 = Inr ''X''"
    using cell [OF r(1,2)] get [OF r(1,2)] drawn_world_cells(6) by simp
  have c3: "get_cell (data w) 8 3 = Inr ''-''"
    using cell [OF r(1,3)] get [OF r(1,3)] drawn_world_cells(7) by simp
  have c2: "get_cell (data w) 8 2 = Inr ''x''"
    using cell [OF r(1,4)] get [OF r(1,4)] drawn_world_cells(8) by simp
  have others: "(a, b) \<in> {(8, 4), (8, 3), (8, 2)}
           \<or> get_cell (data w) a b = Inr '' '' \<or> get_cell (data w) a b = Inr ''*''"
    if "a \<in> {0..<16}" "b \<in> {0..<16}" for a b :: int
  proof -
    have ab: "in_range a 16" "in_range b 16" "nat a \<in> {0..<16}" "nat b \<in> {0..<16}"
      using that by (auto simp: in_range_def)
    have d: "(nat a, nat b) \<in> {(8, 4), (8, 3), (8, 2)}
          \<or> data drawn_world ! nat a ! nat b = '' ''"
      by (rule drawn_world_cells(9) [rule_format, OF ab(3) ab(4)])
    have e: "(a, b) \<in> {(8, 4), (8, 3), (8, 2)}"
      if "(nat a, nat b) \<in> {(8, 4), (8, 3), (8, 2)}"
      using that ab(1,2) by (simp add: in_range_def nat_eq_iff)
    from d show ?thesis
    proof
      assume "(nat a, nat b) \<in> {(8, 4), (8, 3), (8, 2)}"
      then show ?thesis
        using e by blast
    next
      assume "data drawn_world ! nat a ! nat b = '' ''"
      then have "data w ! nat a ! nat b = '' '' \<or> data w ! nat a ! nat b = ''*''"
        using cell [OF ab(1,2)] by auto
      then show ?thesis
        using get [OF ab(1,2)] by auto
    qed
  qed
  have drawn: "bind_res (draw_segments 16 16 default_chars 3 [(0, ''E'')]
                   \<lparr>canvas = replicate 16 (replicate 16 '' ''), pointer = (8, 4),
                    move = None\<rparr>)
          (\<lambda>b. Inr (map (\<lambda>j. canvas b ! 8 ! j) [4, 3, 2])) = Inr [''-'', ''-'', ''-'']"
    "Snake_init 3 [(0, ''E'')] default_chars = Inr default_snake"
    by code_simp+
  have st: "step w = Inr (w\<lparr>pos := (8, 5)\<rparr>)"
    using f by (simp add: step_distinct default_snake_def matrix_moves_def shift_def)
  have st2: "step (turn_snake (w\<lparr>pos := (8, 5)\<rparr>) ''S'')
     = Inr (w\<lparr>snake := default_snake\<lparr>segments := [(0, ''S''), (1, ''E'')]\<rparr>, pos := (9, 5)\<rparr>)"
    using f by (simp add: step_distinct turn_snake_def turn_def default_snake_def
        matrix_moves_def shift_def)
  have o: "\<forall>a \<in> {0..<16}. \<forall>b \<in> {0..<16}.
           (a, b) \<in> {(8, 4), (8, 3), (8, 2)}
           \<or> get_cell (data w) a b = Inr '' '' \<or> get_cell (data w) a b = Inr ''*''"
    using others by blast
  have s1: "bind_res (step w) (\<lambda>w1. Inr (pos w1)) = Inr (8, 5)"
    using st by simp
  have s2: "bind_res (step w) (\<lambda>w1.
        bind_res (step (turn_snake w1 ''S'')) (\<lambda>w2. Inr (pos w2))) = Inr (9, 5)"
    using st st2 by simp
  from drawn f(1,2,3) c4 c3 c2 o s1 s2 show ?thesis
    by (intro conjI) assumption+
qed

theorem default_scenario_witness:
  "World_init default_snake None 16 16 ''*'' [3, 7] = Some (Inr (fed_world 3 7, []))
   \<and> pos (fed_world 3 7) = (8, 4)
   \<and> get_cell (data (fed_world 3 7)) 8 4 = Inr ''X''
   \<and> get_cell (data (fed_world 3 7)) 8 3 = Inr ''-''
   \<and> get_cell (data (fed_world 3 7)) 8 2 = Inr ''x''
   \<and> bind_res (step (fed_world 3 7)) (\<lambda>w1. Inr (pos w1)) = Inr (8, 5)
   \<and> bind_res (step (fed_world 3 7)) (\<lambda>w1.
      bind_res (step (turn_snake w1 ''S'')) (\<lambda>w2. Inr (pos w2))) = Inr (9, 5)"
proof -
  have h: "World_init default_snake None 16 16 ''*'' [3, 7] = Some (Inr (fed_world 3 7, []))"
    by code_simp
  from h default_scenario [OF h] show ?thesis
    by (elim conjE) (intro conjI, assumption+)
qed

section \<open>The drawing loops as a walk\<close>

lemma cell_at_paint:
  assumes "shape g h w" "on_grid h w p" "on_grid h w q"
  shows "cell_at (paint g (p, v)) q = (if q = p then v else cell_at g q)"
  using nth_paint [of g h w "fst p" "snd p" "fst q" "snd q" v] assms
  by (auto simp: cell_at_def paint_def on_grid_def prod_eq_iff)

lemma shape_paint: "shape g h w \<Longrightarrow> shape (paint g qc) h w"
  by (simp add: paint_def shape_update)

lemma set_cell_paint:
  "shape g h w \<Longrightarrow> on_grid h w q \<Longrightarrow> set_cell g (fst q) (snd q) v = Inr (paint g (q, v))"
  by (simp add: paint_def on_grid_def set_cell_in_range)

lemma shape_foldl_paint: "shape g h w \<Longrightarrow> shape (foldl paint g xs) h w"
  by (induction xs arbitrary: g) (simp_all add: shape_paint)

lemma cell_at_foldl_notin:
  assumes "shape g h w" "on_grid h w q" "\<forall>x \<in> set xs. on_grid h w (fst x)"
    "q \<notin> fst ` set xs"
  shows "cell_at (foldl paint g xs) q = cell_at g q"
  using assms
proof (induction xs arbitrary: g)
  case Nil
  then show ?case by simp
next
  case (Cons x xs)
  have "cell_at (foldl paint (paint g x) xs) q = cell_at (paint g x) q"
    using Cons.prems by (intro Cons.IH shape_paint) auto
  also have "\<dots> = cell_at g q"
    using cell_at_paint [of g h w "fst x" q "snd x"] Cons.prems by auto
  finally show ?case by simp
qed

lemma cell_at_foldl_in:
  assumes "shape g h w" "\<forall>x \<in> set xs. on_grid h w (fst x)" "distinct (map fst xs)"
    "(q, v) \<in> set xs"
  shows "cell_at (foldl paint g xs) q = v"
  using assms
proof (induction xs arbitrary: g)
  case Nil
  then show ?case by simp
next
  case (Cons x xs)
  show ?case
  proof (cases "x = (q, v)")
    case True
    have "cell_at (foldl paint (paint g x) xs) q = cell_at (paint g x) q"
      using Cons.prems True
      by (intro cell_at_foldl_notin [where h = h and w = w] shape_paint) auto
    also have "\<dots> = v"
      using cell_at_paint [of g h w q q v] Cons.prems True by auto
    finally show ?thesis by simp
  next
    case False
    then have "(q, v) \<in> set xs"
      using Cons.prems by auto
    then have "cell_at (foldl paint (paint g x) xs) q = v"
      using Cons.prems by (intro Cons.IH shape_paint) auto
    then show ?thesis by simp
  qed
qed

lemma last_piece_cells:
  "0 < n \<Longrightarrow> last (piece_cells p m n)
     = (fst p - (int n - 1) * fst m, snd p - (int n - 1) * snd m)"
proof (induction n arbitrary: p)
  case 0
  then show ?case by simp
next
  case (Suc n)
  show ?case
  proof (cases n)
    case 0
    then show ?thesis by simp
  next
    case (Suc k)
    then have "piece_cells (fst p - fst m, snd p - snd m) m n \<noteq> []"
      by simp
    then show ?thesis
      using Suc.IH [of "(fst p - fst m, snd p - snd m)"] Suc
      by (simp add: algebra_simps)
  qed
qed

lemma draw_pieces_run:
  assumes "shape (canvas b) h w" "matrix_moves d = Some m"
    "\<forall>q \<in> set (piece_cells (pointer b) m n). on_grid h w q"
  shows "draw_pieces h w d c n b =
           Inr \<lparr>canvas = foldl paint (canvas b) (map (\<lambda>q. (q, c)) (piece_cells (pointer b) m n)),
                pointer = (fst (pointer b) - int n * fst m, snd (pointer b) - int n * snd m),
                move = (if n = 0 then move b else Some m)\<rparr>"
  using assms
proof (induction n arbitrary: b)
  case 0
  then show ?case by simp
next
  case (Suc n)
  let ?b = "\<lparr>canvas = paint (canvas b) (pointer b, c),
             pointer = (fst (pointer b) - fst m, snd (pointer b) - snd m),
             move = Some m\<rparr>"
  have on: "on_grid h w (pointer b)"
    using Suc.prems(3) by simp
  have "draw_pieces h w d c (Suc n) b = draw_pieces h w d c n ?b"
    using on Suc.prems(1,2) set_cell_paint [OF Suc.prems(1) on, of c]
    by (simp add: on_grid_def)
  also have "\<dots> = Inr \<lparr>canvas = foldl paint (canvas ?b)
                           (map (\<lambda>q. (q, c)) (piece_cells (pointer ?b) m n)),
                pointer = (fst (pointer ?b) - int n * fst m, snd (pointer ?b) - int n * snd m),
                move = (if n = 0 then move ?b else Some m)\<rparr>"
    using Suc.prems by (intro Suc.IH) (simp_all add: shape_paint)
  finally show ?case
    by (simp add: algebra_simps)
qed

lemma py_index_glyph:
  "3 \<le> length chs \<Longrightarrow>
     py_index chs (if d = ''E'' \<or> d = ''W'' then 1 else 2) = Inr (body_glyph chs d)"
  by (simp add: py_index_def body_glyph_def Let_def)

lemma draw_segments_run:
  assumes "shape (canvas b) h w"
    and "\<forall>seg \<in> set segs. matrix_moves (snd seg) \<noteq> None"
    and "3 \<le> length chs"
    and "\<forall>x \<in> set (trail len segs (pointer b)). on_grid h w (fst x)"
  shows "\<exists>b'. draw_segments h w chs len segs b = Inr b'
      \<and> canvas b' = foldl paint (canvas b)
            (map (\<lambda>x. (fst x, body_glyph chs (snd x))) (trail len segs (pointer b)))
      \<and> (if trail len segs (pointer b) = []
          then move b' = move b \<and> pointer b' = pointer b
          else \<exists>m. move b' = Some m
                 \<and> (fst (pointer b') + fst m, snd (pointer b') + snd m)
                     = fst (last (trail len segs (pointer b))))"
  using assms
proof (induction segs arbitrary: b)
  case Nil
  then show ?case by simp
next
  case (Cons seg rest)
  define n where "n = seg_len len seg rest"
  define c where "c = body_glyph chs (snd seg)"
  obtain m where m: "matrix_moves (snd seg) = Some m"
    using Cons.prems(2) by auto
  then have dm: "delta (snd seg) = m"
    by (simp add: delta_def)
  define cells where "cells = piece_cells (pointer b) m n"
  define b1 where "b1 = \<lparr>canvas = foldl paint (canvas b) (map (\<lambda>q. (q, c)) cells),
                pointer = (fst (pointer b) - int n * fst m, snd (pointer b) - int n * snd m),
                move = (if n = 0 then move b else Some m)\<rparr>"
  have tr: "trail len (seg # rest) (pointer b)
              = map (\<lambda>q. (q, snd seg)) cells @ trail len rest (pointer b1)"
    by (simp add: n_def dm cells_def b1_def)
  have on1: "\<forall>q \<in> set cells. on_grid h w q"
    and on2: "\<forall>x \<in> set (trail len rest (pointer b1)). on_grid h w (fst x)"
    using Cons.prems(4) unfolding tr by (force, simp)
  have p: "draw_pieces h w (snd seg) c n b = Inr b1"
    unfolding b1_def cells_def
    using on1 by (intro draw_pieces_run [OF Cons.prems(1) m]) (simp add: cells_def)
  have s1: "shape (canvas b1) h w"
    by (simp add: b1_def shape_foldl_paint [OF Cons.prems(1)])
  from Cons.IH [OF s1 _ Cons.prems(3) on2] Cons.prems(2)
  obtain b' where r: "draw_segments h w chs len rest b1 = Inr b'"
    and cv: "canvas b' = foldl paint (canvas b1)
            (map (\<lambda>x. (fst x, body_glyph chs (snd x))) (trail len rest (pointer b1)))"
    and mv: "if trail len rest (pointer b1) = []
          then move b' = move b1 \<and> pointer b' = pointer b1
          else \<exists>m. move b' = Some m
                 \<and> (fst (pointer b') + fst m, snd (pointer b') + snd m)
                     = fst (last (trail len rest (pointer b1)))"
    by auto
  have run: "draw_segments h w chs len (seg # rest) b = Inr b'"
    using p r py_index_glyph [OF Cons.prems(3), of "snd seg"]
    by (simp add: c_def n_def seg_len_def)
  have cv': "canvas b' = foldl paint (canvas b)
            (map (\<lambda>x. (fst x, body_glyph chs (snd x))) (trail len (seg # rest) (pointer b)))"
    unfolding tr cv by (simp add: b1_def c_def comp_def)
  have mv': "if trail len (seg # rest) (pointer b) = []
          then move b' = move b \<and> pointer b' = pointer b
          else \<exists>m. move b' = Some m
                 \<and> (fst (pointer b') + fst m, snd (pointer b') + snd m)
                     = fst (last (trail len (seg # rest) (pointer b)))"
  proof (cases "trail len rest (pointer b1) = []")
    case False
    then show ?thesis
      using mv unfolding tr by simp
  next
    case True
    then have e: "move b' = move b1" "pointer b' = pointer b1"
      using mv by simp_all
    show ?thesis
    proof (cases n)
      case 0
      then show ?thesis
        using e True unfolding tr by (simp add: b1_def cells_def)
    next
      case (Suc k)
      then have "cells \<noteq> []" "0 < n"
        by (simp_all add: cells_def)
      then show ?thesis
        using e True last_piece_cells [of n "pointer b" m] unfolding tr
        by (simp add: b1_def cells_def last_map algebra_simps)
    qed
  qed
  show ?case
    using run cv' mv' by blast
qed

lemma trail_starts_at_pointer: "trail len segs p = x # xs \<Longrightarrow> fst x = p"
proof (induction segs arbitrary: p)
  case Nil
  then show ?case by simp
next
  case (Cons seg rest)
  show ?case
  proof (cases "seg_len len seg rest")
    case 0
    then show ?thesis
      using Cons.prems Cons.IH [of p] by simp
  next
    case (Suc k)
    then show ?thesis
      using Cons.prems by auto
  qed
qed

lemma cell_at_map:
  assumes "shape g h w" "on_grid h w q"
  shows "cell_at (map (map f) g) q = f (cell_at g q)"
  using assms by (simp add: cell_at_def on_grid_def shape_def in_range_def)

lemma shape_map: "shape g h w \<Longrightarrow> shape (map (map f) g) h w"
  by (simp add: shape_def)

lemma length_piece_cells: "length (piece_cells p m n) = n"
  by (induction n arbitrary: p) simp_all

text \<open>
  With the distances in order and none beyond the length, the walk covers as
  many cells as the length of the snake exceeds the distance in front.
\<close>

lemma length_trail:
  assumes "segs \<noteq> []" "sorted (map fst segs)" "\<forall>seg \<in> set segs. fst seg \<le> len"
  shows "length (trail len segs p) = nat (len - fst (hd segs))"
  using assms
proof (induction segs arbitrary: p)
  case Nil
  then show ?case by simp
next
  case (Cons seg rest)
  show ?case
  proof (cases rest)
    case Nil
    then show ?thesis
      by (simp add: seg_len_def length_piece_cells)
  next
    case (Cons s1 rest')
    let ?p = "(fst p - int (seg_len len seg rest) * fst (delta (snd seg)),
               snd p - int (seg_len len seg rest) * snd (delta (snd seg)))"
    have "length (trail len rest ?p) = nat (len - fst s1)"
      using Cons.IH [of ?p] Cons.prems Cons by simp
    moreover have "fst seg \<le> fst s1" "fst s1 \<le> len"
      using Cons.prems Cons by simp_all
    ultimately show ?thesis
      using Cons by (simp add: seg_len_def length_piece_cells)
  qed
qed

text \<open>
  \<^verbatim>\<open>insertSnake\<close> returns when the glyph tuple has its four glyphs, the headings
  are known, and the walk of the loops covers a cell and stays on the grid.
  It then has written along the walk, the tail glyph on its last cell and the
  head glyph on its first; cells off the walk are as they were.
\<close>

lemma insertSnake_runs:
  assumes g: "grid_ok w"
    and ch: "4 \<le> length (chars (snake w))"
    and dirs: "\<forall>seg \<in> set (segments (snake w)). snd seg \<in> {''N'', ''S'', ''E'', ''W''}"
    and ne: "snake_trail w \<noteq> []"
    and on: "\<forall>x \<in> set (snake_trail w). on_grid (height w) (width w) (fst x)"
  shows "\<exists>g'. insertSnake w = Inr (w\<lparr>data := g'\<rparr>) \<and> shape g' (height w) (width w)
           \<and> (\<forall>q. on_grid (height w) (width w) q \<and> q \<notin> fst ` set (snake_trail w) \<longrightarrow>
                 cell_at g' q = cell_at (data w) q)"
proof -
  let ?h = "height w" and ?wd = "width w" and ?chs = "chars (snake w)"
  define T where "T = map (\<lambda>x. (fst x, body_glyph ?chs (snd x))) (snake_trail w)"
  define tailpos where "tailpos = fst (last (snake_trail w))"
  have sw: "shape (data w) ?h ?wd"
    using g by (simp add: grid_ok_def)
  obtain x xs where tr: "snake_trail w = x # xs"
    using ne by (cases "snake_trail w") auto
  have hp: "fst x = pos w"
    using trail_starts_at_pointer [of "length_snake (snake w)" "segments (snake w)" "pos w"]
      tr by (simp add: snake_trail_def)
  have mm: "\<forall>seg \<in> set (segments (snake w)). matrix_moves (snd seg) \<noteq> None"
    using dirs by (auto simp: matrix_moves_def)
  have on': "\<forall>x \<in> set (trail (length_snake (snake w)) (segments (snake w)) (pos w)).
               on_grid ?h ?wd (fst x)"
    using on by (simp add: snake_trail_def)
  from draw_segments_run [of "\<lparr>canvas = data w, pointer = pos w, move = None\<rparr>" ?h ?wd
      "segments (snake w)" ?chs "length_snake (snake w)"] sw mm on' ch ne
  obtain b m where dr: "draw_segments ?h ?wd ?chs (length_snake (snake w)) (segments (snake w))
                         \<lparr>canvas = data w, pointer = pos w, move = None\<rparr> = Inr b"
    and cb: "canvas b = foldl paint (data w) T"
    and mb: "move b = Some m"
    and pb: "(fst (pointer b) + fst m, snd (pointer b) + snd m) = tailpos"
    by (auto simp: snake_trail_def T_def tailpos_def)
  have scb: "shape (canvas b) ?h ?wd"
    unfolding cb by (rule shape_foldl_paint [OF sw])
  have onT: "\<forall>x \<in> set T. on_grid ?h ?wd (fst x)"
    using on by (simp add: T_def)
  have fT: "fst ` set T = fst ` set (snake_trail w)"
    by (force simp: T_def)
  have in_head: "pos w \<in> fst ` set (snake_trail w)"
    using tr hp by force
  have in_tail: "tailpos \<in> fst ` set (snake_trail w)"
    using ne by (simp add: tailpos_def)
  have on_head: "on_grid ?h ?wd (pos w)" and on_tail: "on_grid ?h ?wd tailpos"
    using on in_head in_tail by auto
  define g1 where "g1 = paint (canvas b) (tailpos, ?chs ! 3)"
  define g2 where "g2 = paint g1 (pos w, ?chs ! 0)"
  have s1: "shape g1 ?h ?wd"
    unfolding g1_def by (rule shape_paint [OF scb])
  have s2: "shape g2 ?h ?wd"
    unfolding g2_def by (rule shape_paint [OF s1])
  have set1: "set_cell (canvas b) (fst (pointer b) + fst m) (snd (pointer b) + snd m)
                (?chs ! 3) = Inr g1"
    using set_cell_paint [OF scb on_tail, of "?chs ! 3"] pb by (auto simp: g1_def)
  have set2: "set_cell g1 (fst (pos w)) (snd (pos w)) (?chs ! 0) = Inr g2"
    using set_cell_paint [OF s1 on_head, of "?chs ! 0"] by (simp add: g2_def)
  have px: "py_index ?chs 3 = Inr (?chs ! 3)" "py_index ?chs 0 = Inr (?chs ! 0)"
    using ch by (auto simp: py_index_def Let_def)
  have ins: "insertSnake w = Inr (w\<lparr>data := g2\<rparr>)"
    using dr mb set1 set2 px by (simp add: insertSnake_def)
  have off: "cell_at g2 q = cell_at (data w) q"
    if "on_grid ?h ?wd q" "q \<notin> fst ` set (snake_trail w)" for q
  proof -
    have "q \<noteq> pos w" "q \<noteq> tailpos"
      using that(2) in_head in_tail by auto
    then have "cell_at g2 q = cell_at (canvas b) q"
      using cell_at_paint [OF s1 on_head that(1), of "?chs ! 0"]
        cell_at_paint [OF scb on_tail that(1), of "?chs ! 3"]
      by (simp add: g2_def g1_def)
    also have "\<dots> = cell_at (data w) q"
      unfolding cb using cell_at_foldl_notin [OF sw that(1) onT] that(2) fT by simp
    finally show ?thesis .
  qed
  show ?thesis
    using ins s2 off by blast
qed

section \<open>Redrawing the snake\<close>

text \<open>
  What clearing and redrawing leaves on the grid when the walk of the drawing
  loops visits at least two cells, stays on the grid and visits no cell twice:
  the head glyph on the first cell of the walk and nowhere else, the tail glyph
  on the last and nowhere else, the glyph of its heading on each cell between,
  and off the walk every glyph that is not one of the snake's.
\<close>

lemma redraw_along_walk:
  assumes g: "grid_ok w"
    and ch: "chars (snake w) = [headc, horizc, vertc, tailc]"
    and di: "distinct [headc, horizc, vertc, tailc, '' '']"
    and dirs: "\<forall>seg \<in> set (segments (snake w)). snd seg \<in> {''N'', ''S'', ''E'', ''W''}"
    and tr: "snake_trail w = (headpos, d0) # mid @ [(tailpos, dn)]"
    and on: "\<forall>x \<in> set (snake_trail w). on_grid (height w) (width w) (fst x)"
    and ds: "distinct (map fst (snake_trail w))"
  shows "\<exists>w'. insertSnake (clearSnake w) = Inr w' \<and> w' = w\<lparr>data := data w'\<rparr> \<and> grid_ok w'
     \<and> headpos = pos w
     \<and> (\<forall>q. on_grid (height w) (width w) q \<longrightarrow>
           (cell_at (data w') q = headc \<longleftrightarrow> q = pos w))
     \<and> (\<forall>q. on_grid (height w) (width w) q \<longrightarrow>
           (cell_at (data w') q = tailc \<longleftrightarrow> q = tailpos))
     \<and> (\<forall>x \<in> set mid.
           cell_at (data w') (fst x)
             = (if snd x = ''E'' \<or> snd x = ''W'' then horizc else vertc))
     \<and> (\<forall>q. on_grid (height w) (width w) q \<and> q \<notin> fst ` set (snake_trail w)
             \<and> cell_at (data w) q \<notin> {headc, horizc, vertc, tailc} \<longrightarrow>
           cell_at (data w') q = cell_at (data w) q)
     \<and> (foodchar w \<notin> {headc, horizc, vertc, tailc} \<longrightarrow>
          (\<forall>q. on_grid (height w) (width w) q \<and> q \<notin> fst ` set (snake_trail w)
             \<and> cell_at (data w) q = foodchar w \<longrightarrow>
           cell_at (data w') q = foodchar w))"
proof -
  let ?h = "height w" and ?wd = "width w" and ?chs = "chars (snake w)"
  define clear where "clear = (\<lambda>cell. if cell \<notin> set ?chs then cell else '' '')"
  define g0 where "g0 = map (map clear) (data w)"
  define T where "T = map (\<lambda>x. (fst x, body_glyph ?chs (snd x))) (snake_trail w)"
  have sw: "shape (data w) ?h ?wd"
    using g by (simp add: grid_ok_def)
  have s0: "shape g0 ?h ?wd"
    unfolding g0_def by (rule shape_map [OF sw])
  have c0: "clearSnake w = w\<lparr>data := g0\<rparr>"
    by (simp add: clearSnake_def g0_def clear_def)
  have hp: "headpos = pos w"
    using trail_starts_at_pointer [of "length_snake (snake w)" "segments (snake w)" "pos w"]
      tr by (simp add: snake_trail_def)
  have mm: "\<forall>seg \<in> set (segments (snake w)). matrix_moves (snd seg) \<noteq> None"
    using dirs by (auto simp: matrix_moves_def)
  have on': "\<forall>x \<in> set (trail (length_snake (snake w)) (segments (snake w)) (pos w)).
               on_grid ?h ?wd (fst x)"
    using on by (simp add: snake_trail_def)
  from draw_segments_run [of "\<lparr>canvas = g0, pointer = pos w, move = None\<rparr>" ?h ?wd
      "segments (snake w)" ?chs "length_snake (snake w)"] s0 mm on' ch tr
  obtain b m where dr: "draw_segments ?h ?wd ?chs (length_snake (snake w)) (segments (snake w))
                         \<lparr>canvas = g0, pointer = pos w, move = None\<rparr> = Inr b"
    and cb: "canvas b = foldl paint g0 T"
    and mb: "move b = Some m"
    and pb: "(fst (pointer b) + fst m, snd (pointer b) + snd m) = tailpos"
    by (auto simp: snake_trail_def T_def)
  have scb: "shape (canvas b) ?h ?wd"
    unfolding cb by (rule shape_foldl_paint [OF s0])
  have onT: "\<forall>x \<in> set T. on_grid ?h ?wd (fst x)"
    using on by (simp add: T_def)
  have dT: "distinct (map fst T)"
    using ds by (simp add: T_def comp_def)
  have fT: "fst ` set T = fst ` set (snake_trail w)"
    by (force simp: T_def)
  have on_head: "on_grid ?h ?wd (pos w)" and on_tail: "on_grid ?h ?wd tailpos"
    using on tr hp by auto
  have ne: "pos w \<noteq> tailpos"
    using ds tr hp by auto
  define g1 where "g1 = paint (canvas b) (tailpos, tailc)"
  define g2 where "g2 = paint g1 (pos w, headc)"
  have s1: "shape g1 ?h ?wd"
    unfolding g1_def by (rule shape_paint [OF scb])
  have s2: "shape g2 ?h ?wd"
    unfolding g2_def by (rule shape_paint [OF s1])
  have set1: "set_cell (canvas b) (fst (pointer b) + fst m) (snd (pointer b) + snd m) tailc
                = Inr g1"
    using set_cell_paint [OF scb on_tail, of tailc] pb by (auto simp: g1_def)
  have set2: "set_cell g1 (fst (pos w)) (snd (pos w)) headc = Inr g2"
    using set_cell_paint [OF s1 on_head, of headc] by (simp add: g2_def)
  have ins: "insertSnake (clearSnake w) = Inr (w\<lparr>data := g2\<rparr>)"
    using dr mb set1 set2 ch by (simp add: insertSnake_def c0 py_index_def)
  have cell2: "cell_at g2 q = (if q = pos w then headc else if q = tailpos then tailc
                               else cell_at (canvas b) q)"
    if "on_grid ?h ?wd q" for q
    using cell_at_paint [OF s1 on_head that, of headc] cell_at_paint [OF scb on_tail that, of tailc]
    by (simp add: g2_def g1_def)
  have inT: "cell_at (canvas b) (fst x) = (if snd x = ''E'' \<or> snd x = ''W'' then horizc else vertc)"
    if "x \<in> set (snake_trail w)" for x
  proof -
    have "(fst x, body_glyph ?chs (snd x)) \<in> set T"
      using that by (force simp: T_def)
    then have "cell_at (canvas b) (fst x) = body_glyph ?chs (snd x)"
      unfolding cb by (rule cell_at_foldl_in [OF s0 onT dT])
    then show ?thesis
      by (simp add: body_glyph_def ch)
  qed
  have outT: "cell_at (canvas b) q = clear (cell_at (data w) q)"
    if "on_grid ?h ?wd q" "q \<notin> fst ` set (snake_trail w)" for q
    unfolding cb g0_def
    using cell_at_foldl_notin [OF s0 that(1) onT] that(2) fT cell_at_map [OF sw that(1)]
    by (simp add: g0_def)
  have body: "cell_at (canvas b) q \<noteq> headc \<and> cell_at (canvas b) q \<noteq> tailc"
    if "on_grid ?h ?wd q" for q
  proof (cases "q \<in> fst ` set (snake_trail w)")
    case True
    then obtain x where "x \<in> set (snake_trail w)" "q = fst x"
      by auto
    then show ?thesis
      using inT [of x] di by auto
  next
    case False
    then show ?thesis
      using outT [OF that False] di ch by (auto simp: clear_def)
  qed
  have head: "cell_at g2 q = headc \<longleftrightarrow> q = pos w" if "on_grid ?h ?wd q" for q
    using cell2 [OF that] body [OF that] di by auto
  have tail: "cell_at g2 q = tailc \<longleftrightarrow> q = tailpos" if "on_grid ?h ?wd q" for q
    using cell2 [OF that] body [OF that] di ne by auto
  have middle: "cell_at g2 (fst x) = (if snd x = ''E'' \<or> snd x = ''W'' then horizc else vertc)"
    if "x \<in> set mid" for x
  proof -
    have x: "x \<in> set (snake_trail w)" "fst x \<noteq> pos w" "fst x \<noteq> tailpos"
      using that ds tr hp by (auto simp: image_iff)
    then have "on_grid ?h ?wd (fst x)"
      using on by simp
    then show ?thesis
      using cell2 [of "fst x"] x inT [OF x(1)] by simp
  qed
  have keep: "cell_at g2 q = cell_at (data w) q"
    if "on_grid ?h ?wd q" "q \<notin> fst ` set (snake_trail w)"
      "cell_at (data w) q \<notin> {headc, horizc, vertc, tailc}" for q
  proof -
    have "q \<noteq> pos w" "q \<noteq> tailpos"
      using that(2) tr hp by (auto simp: image_iff)
    then show ?thesis
      using cell2 [OF that(1)] outT [OF that(1,2)] that(3) ch by (simp add: clear_def)
  qed
  have "grid_ok (w\<lparr>data := g2\<rparr>)"
    using s2 by (simp add: grid_ok_def)
  then show ?thesis
    using ins hp head tail middle keep
    by (intro exI [of _ "w\<lparr>data := g2\<rparr>"]) auto
qed

text \<open>
  Claim C5, as amended. Take a world with a well-shaped grid, four glyphs that
  differ from each other and from the blank, and segments with headings among
  N, S, E, W whose distances are within the constructor's bound (each below
  length - 1), in non-decreasing order from the head, the first of them 0.
  Let the walk of the drawing loops visit at least two cells, stay on the grid
  and visit no cell twice. Then the walk has exactly as many cells as the
  snake is long, and clearing and redrawing the snake (as \<^verbatim>\<open>__repr__\<close> does)
  returns without raising and changes the grid only. On the new grid the head
  glyph is on the cell of the head and on no other cell; the tail glyph is on
  the last cell of the walk and on no other; every cell of the walk in between
  holds the horizontal glyph if its segment heads east or west, and the
  vertical glyph otherwise; and a cell outside the walk that held a glyph
  other than those of the snake still holds it, so the food is kept when its
  glyph is none of the four. Nothing is said of a snake with a segment at or
  beyond length - 1, or with a turn that no step has taken up yet.
\<close>

theorem rasterize_layout:
  assumes g: "grid_ok w"
    and ch: "chars (snake w) = [headc, horizc, vertc, tailc]"
    and di: "distinct [headc, horizc, vertc, tailc, '' '']"
    and dirs: "\<forall>seg \<in> set (segments (snake w)). snd seg \<in> {''N'', ''S'', ''E'', ''W''}"
    and bound: "\<forall>seg \<in> set (segments (snake w)). fst seg < length_snake (snake w) - 1"
    and ord: "sorted (map fst (segments (snake w)))"
    and front: "fst (hd (segments (snake w))) = 0"
    and tr: "snake_trail w = (headpos, d0) # mid @ [(tailpos, dn)]"
    and on: "\<forall>x \<in> set (snake_trail w). on_grid (height w) (width w) (fst x)"
    and ds: "distinct (map fst (snake_trail w))"
  shows "length (snake_trail w) = nat (length_snake (snake w))
     \<and> (\<exists>w'. insertSnake (clearSnake w) = Inr w' \<and> w' = w\<lparr>data := data w'\<rparr> \<and> grid_ok w'
     \<and> headpos = pos w
     \<and> (\<forall>q. on_grid (height w) (width w) q \<longrightarrow>
           (cell_at (data w') q = headc \<longleftrightarrow> q = pos w))
     \<and> (\<forall>q. on_grid (height w) (width w) q \<longrightarrow>
           (cell_at (data w') q = tailc \<longleftrightarrow> q = tailpos))
     \<and> (\<forall>x \<in> set mid.
           cell_at (data w') (fst x)
             = (if snd x = ''E'' \<or> snd x = ''W'' then horizc else vertc))
     \<and> (\<forall>q. on_grid (height w) (width w) q \<and> q \<notin> fst ` set (snake_trail w)
             \<and> cell_at (data w) q \<notin> {headc, horizc, vertc, tailc} \<longrightarrow>
           cell_at (data w') q = cell_at (data w) q)
     \<and> (foodchar w \<notin> {headc, horizc, vertc, tailc} \<longrightarrow>
          (\<forall>q. on_grid (height w) (width w) q \<and> q \<notin> fst ` set (snake_trail w)
             \<and> cell_at (data w) q = foodchar w \<longrightarrow>
           cell_at (data w') q = foodchar w)))"
proof -
  have ne: "segments (snake w) \<noteq> []"
    using tr by (auto simp: snake_trail_def)
  have le: "\<forall>seg \<in> set (segments (snake w)). fst seg \<le> length_snake (snake w)"
    using bound by auto
  have "length (snake_trail w) = nat (length_snake (snake w))"
    using length_trail [OF ne ord le, of "pos w"] front by (simp add: snake_trail_def)
  then show ?thesis
    using redraw_along_walk [OF g ch di dirs tr on ds] by simp
qed

theorem rasterize_layout_witness:
  "grid_ok (fed_world 3 7)
   \<and> segments (snake (fed_world 3 7)) = [(0, ''E'')]
   \<and> length_snake (snake (fed_world 3 7)) = 3
   \<and> snake_trail (fed_world 3 7) = ((8, 4), ''E'') # [((8, 3), ''E'')] @ [((8, 2), ''E'')]
   \<and> bind_res (insertSnake (clearSnake (fed_world 3 7))) (\<lambda>w'.
        Inr (cell_at (data w') (8, 4), cell_at (data w') (8, 3), cell_at (data w') (8, 2),
             cell_at (data w') (3, 7)))
      = Inr (''X'', ''-'', ''x'', ''*'')"
proof -
  have h: "grid_ok (fed_world 3 7)"
    "chars (snake (fed_world 3 7)) = [''X'', ''-'', ''|'', ''x'']"
    "distinct [''X'', ''-'', ''|'', ''x'', '' '']"
    "\<forall>seg \<in> set (segments (snake (fed_world 3 7))). snd seg \<in> {''N'', ''S'', ''E'', ''W''}"
    "\<forall>seg \<in> set (segments (snake (fed_world 3 7))).
       fst seg < length_snake (snake (fed_world 3 7)) - 1"
    "sorted (map fst (segments (snake (fed_world 3 7))))"
    "fst (hd (segments (snake (fed_world 3 7)))) = 0"
    "snake_trail (fed_world 3 7) = ((8, 4), ''E'') # [((8, 3), ''E'')] @ [((8, 2), ''E'')]"
    "\<forall>x \<in> set (snake_trail (fed_world 3 7)).
       on_grid (height (fed_world 3 7)) (width (fed_world 3 7)) (fst x)"
    "distinct (map fst (snake_trail (fed_world 3 7)))"
    by code_simp+
  have v: "on_grid (height (fed_world 3 7)) (width (fed_world 3 7)) (8, 4)"
    "on_grid (height (fed_world 3 7)) (width (fed_world 3 7)) (8, 2)"
    "on_grid (height (fed_world 3 7)) (width (fed_world 3 7)) (3, 7)"
    "(3, 7) \<notin> fst ` set (snake_trail (fed_world 3 7))"
    "cell_at (data (fed_world 3 7)) (3, 7) = foodchar (fed_world 3 7)"
    "foodchar (fed_world 3 7) = ''*''" "pos (fed_world 3 7) = (8, 4)"
    "segments (snake (fed_world 3 7)) = [(0, ''E'')]"
    "length_snake (snake (fed_world 3 7)) = 3"
    by code_simp+
  from rasterize_layout [OF h]
  obtain w' where w': "insertSnake (clearSnake (fed_world 3 7)) = Inr w'"
    and hd: "\<forall>q. on_grid (height (fed_world 3 7)) (width (fed_world 3 7)) q \<longrightarrow>
           (cell_at (data w') q = ''X'' \<longleftrightarrow> q = pos (fed_world 3 7))"
    and tl: "\<forall>q. on_grid (height (fed_world 3 7)) (width (fed_world 3 7)) q \<longrightarrow>
           (cell_at (data w') q = ''x'' \<longleftrightarrow> q = (8, 2))"
    and md: "\<forall>x \<in> set [((8, 3), ''E'')].
           cell_at (data w') (fst x) = (if snd x = ''E'' \<or> snd x = ''W'' then ''-'' else ''|'')"
    and fd: "foodchar (fed_world 3 7) \<notin> {''X'', ''-'', ''|'', ''x''} \<longrightarrow>
          (\<forall>q. on_grid (height (fed_world 3 7)) (width (fed_world 3 7)) q
             \<and> q \<notin> fst ` set (snake_trail (fed_world 3 7))
             \<and> cell_at (data (fed_world 3 7)) q = foodchar (fed_world 3 7) \<longrightarrow>
           cell_at (data w') q = foodchar (fed_world 3 7))"
    by blast
  have "cell_at (data w') (8, 4) = ''X''"
    using hd v(1,7) by simp
  moreover have "cell_at (data w') (8, 2) = ''x''"
    using tl v(2) by simp
  moreover have "cell_at (data w') (8, 3) = ''-''"
    using md by simp
  moreover have "cell_at (data w') (3, 7) = ''*''"
    using fd v(3,4,5,6) by simp
  ultimately show ?thesis
    using h(1,8) v(8,9) w' by simp
qed

text \<open>
  Claim C5 as stated fails. In the default world, \<^verbatim>\<open>step\<close>, \<^verbatim>\<open>turn('W')\<close> and
  \<^verbatim>\<open>step\<close> give a snake that the constructor accepts, with the head on the
  grid and \<^verbatim>\<open>loss\<close> False; its walk ends on the cell of the head. Redrawn,
  the grid holds the head glyph on one cell and the tail glyph on none.
\<close>

theorem uturn_has_no_tail_glyph:
  "World_init default_snake None 16 16 ''*'' [3, 7] = Some (Inr (fed_world 3 7, []))
   \<and> bind_res (step (fed_world 3 7)) (\<lambda>w1. step (turn_snake w1 ''W'')) = Inr uturn_world
   \<and> Snake_init 3 [(0, ''W''), (1, ''E'')] default_chars = Inr (snake uturn_world)
   \<and> pos uturn_world = (8, 4)
   \<and> loss uturn_world = Inr False
   \<and> snake_trail uturn_world = [((8, 4), ''W''), ((8, 5), ''E''), ((8, 4), ''E'')]
   \<and> bind_res (repr_world uturn_world) (\<lambda>(w', shown).
        Inr (glyph_cells w' ''X'', glyph_cells w' ''x'', data w' ! 8))
      = Inr (1, 0, replicate 4 '' '' @ [''X'', ''-''] @ replicate 10 '' '')"
  by code_simp

section \<open>What the constructors check\<close>

lemma check_segments_raises:
  "check_segments len segs = Inl e \<longleftrightarrow>
     e = Exception ''Snake segments must begin before the tail''
     \<and> (\<exists>seg \<in> set segs. \<not> fst seg < len - 1)"
  by (induction segs) auto

text \<open>
  On a well-shaped grid with a row and a column, \<^verbatim>\<open>placeFood\<close> does not raise;
  and it returns at once when the first two random numbers hit a blank cell.
\<close>

lemma placeFood_no_raise:
  assumes "grid_ok w" "0 < height w" "0 < width w"
  shows "placeFood w rs \<noteq> Some (Inl e)"
  using assms
proof (induction w rs rule: placeFood.induct)
  case (1 w)
  then show ?case by simp
next
  case (2 w r1)
  then show ?case by simp
next
  case (3 w r1 r2 rs)
  let ?i = "int r1 mod height w" and ?j = "int r2 mod width w"
  have r: "in_range ?i (height w)" "in_range ?j (width w)"
    using "3.prems" by (simp_all add: in_range_def)
  have s: "shape (data w) (height w) (width w)"
    using "3.prems"(1) by (simp add: grid_ok_def)
  have get: "get_cell (data w) ?i ?j = Inr (data w ! nat ?i ! nat ?j)"
    by (rule get_cell_in_range [OF s r])
  have set: "set_cell (data w) ?i ?j (foodchar w)
               = Inr ((data w)[nat ?i := (data w ! nat ?i)[nat ?j := foodchar w]])"
    by (rule set_cell_in_range [OF s r])
  show ?case
  proof (cases "data w ! nat ?i ! nat ?j = '' ''")
    case True
    then show ?thesis
      using "3.prems"(2,3) get set by simp
  next
    case False
    then have "placeFood w (r1 # r2 # rs) = placeFood w rs"
      using "3.prems"(2,3) get by simp
    then show ?thesis
      using "3.IH" [OF _ get False "3.prems"] "3.prems"(2,3) by simp
  qed
qed

lemma placeFood_hit:
  assumes "grid_ok w" "0 < height w" "0 < width w"
    and "cell_at (data w) (int r1 mod height w, int r2 mod width w) = '' ''"
  shows "placeFood w (r1 # r2 # rs)
           = Some (Inr (w\<lparr>data := paint (data w)
                                    ((int r1 mod height w, int r2 mod width w), foodchar w)\<rparr>, rs))"
proof -
  let ?i = "int r1 mod height w" and ?j = "int r2 mod width w"
  have r: "in_range ?i (height w)" "in_range ?j (width w)"
    using assms(2,3) by (simp_all add: in_range_def)
  have s: "shape (data w) (height w) (width w)"
    using assms(1) by (simp add: grid_ok_def)
  have get: "get_cell (data w) ?i ?j = Inr (data w ! nat ?i ! nat ?j)"
    by (rule get_cell_in_range [OF s r])
  have set: "set_cell (data w) ?i ?j (foodchar w)
               = Inr ((data w)[nat ?i := (data w ! nat ?i)[nat ?j := foodchar w]])"
    by (rule set_cell_in_range [OF s r])
  show ?thesis
    using assms(2,3,4) get set by (simp add: cell_at_def paint_def)
qed

text \<open>
  \<^verbatim>\<open>World.__init__\<close> up to the food: with a start column of \<open>length - 1\<close> or
  more, four glyphs, known headings and a walk that covers a cell and stays on
  the grid, neither check raises and the snake is drawn on the blank grid.
\<close>

lemma World_init_draws:
  assumes ip: "init_pos p h w = i # j # others"
    and col: "length_snake s - 1 \<le> j"
    and ch: "4 \<le> length (chars s)"
    and dirs: "\<forall>seg \<in> set (segments s). snd seg \<in> {''N'', ''S'', ''E'', ''W''}"
    and ne: "trail (length_snake s) (segments s) (i, j) \<noteq> []"
    and on: "\<forall>x \<in> set (trail (length_snake s) (segments s) (i, j)). on_grid h w (fst x)"
  shows "\<exists>g. World_init s p h w fc rs
              = placeFood \<lparr>snake = s, pos = (i, j), height = h, width = w, foodchar = fc,
                           data = g\<rparr> rs
           \<and> shape g h w \<and> 0 < h \<and> 0 < w
           \<and> (\<forall>q. on_grid h w q
                  \<and> q \<notin> fst ` set (trail (length_snake s) (segments s) (i, j)) \<longrightarrow>
                cell_at g q = '' '')"
proof -
  define w0 where "w0 = gen \<lparr>snake = s, pos = (i, j), height = h, width = w, foodchar = fc,
                              data = [[]]\<rparr>"
  have sel: "snake w0 = s" "pos w0 = (i, j)" "height w0 = h" "width w0 = w" "foodchar w0 = fc"
    "data w0 = replicate (nat h) (replicate (nat w) '' '')"
    by (simp_all add: w0_def gen_def)
  have g0: "grid_ok w0"
    unfolding w0_def by (rule gen_grid_ok)
  have st: "snake_trail w0 = trail (length_snake s) (segments s) (i, j)"
    by (simp add: snake_trail_def sel)
  obtain x where x: "x \<in> set (trail (length_snake s) (segments s) (i, j))"
    using ne by (cases "trail (length_snake s) (segments s) (i, j)") auto
  then have "on_grid h w (fst x)"
    using on by simp
  then have hw: "0 < h" "0 < w"
    by (auto simp: on_grid_def in_range_def)
  from insertSnake_runs [OF g0] ch dirs ne on
  obtain g where ins: "insertSnake w0 = Inr (w0\<lparr>data := g\<rparr>)"
    and sg: "shape g h w"
    and off: "\<forall>q. on_grid h w q \<and> q \<notin> fst ` set (trail (length_snake s) (segments s) (i, j))
                \<longrightarrow> cell_at g q = cell_at (data w0) q"
    unfolding st sel by blast
  have blank: "cell_at (data w0) q = '' ''" if "on_grid h w q" for q
    using that by (simp add: sel cell_at_def on_grid_def in_range_def)
  have w1: "w0\<lparr>data := g\<rparr>
              = \<lparr>snake = s, pos = (i, j), height = h, width = w, foodchar = fc, data = g\<rparr>"
    by (simp add: w0_def gen_def)
  have px: "py_index (init_pos p h w) 1 = Inr j" "hd (init_pos p h w) = i"
    by (simp_all add: ip py_index_def Let_def)
  have "World_init s p h w fc rs
          = placeFood \<lparr>snake = s, pos = (i, j), height = h, width = w, foodchar = fc,
                       data = g\<rparr> rs"
    using col ins w1 px by (simp add: World_init_def w0_def)
  then show ?thesis
    using sg hw off blank by auto
qed

text \<open>
  Claim C7, as amended. \<^verbatim>\<open>Snake.__init__\<close> raises the exception
  \<open>Snake segments must begin before the tail\<close> exactly when some segment it is
  given has a distance that is not below \<open>length - 1\<close>, and returns the snake
  exactly when every distance is below it. \<^verbatim>\<open>World.__init__\<close> returns a world
  only when the start column is \<open>length - 1\<close> or more, and that world holds the
  snake it was given. And when the start column is \<open>length - 1\<close> or more, the
  snake has its four glyphs and headings among N, S, E, W, and the walk of the
  drawing loops from the start position covers a cell and stays on the grid,
  \<^verbatim>\<open>World.__init__\<close> does not raise, whatever the random numbers; it returns a
  world with the snake at the start position as soon as the first two random
  numbers hit a cell off the walk.
\<close>

theorem construction_checks:
  "(Snake_init len segs chs = Inl (Exception ''Snake segments must begin before the tail'')
      \<longleftrightarrow> (\<exists>seg \<in> set segs. \<not> fst seg < len - 1))
   \<and> (Snake_init len segs chs = Inr \<lparr>length_snake = len, chars = chs, segments = segs\<rparr>
      \<longleftrightarrow> (\<forall>seg \<in> set segs. fst seg < len - 1))
   \<and> (World_init s p h w fc rs = Some (Inr (wd, rs')) \<longrightarrow>
        snake wd = s \<and> py_index (init_pos p h w) 1 = Inr (snd (pos wd))
        \<and> snd (pos wd) \<ge> length_snake s - 1)
   \<and> (init_pos p h w = i # j # others \<and> j \<ge> length_snake s - 1
        \<and> 4 \<le> length (chars s)
        \<and> (\<forall>seg \<in> set (segments s). snd seg \<in> {''N'', ''S'', ''E'', ''W''})
        \<and> trail (length_snake s) (segments s) (i, j) \<noteq> []
        \<and> (\<forall>x \<in> set (trail (length_snake s) (segments s) (i, j)). on_grid h w (fst x))
      \<longrightarrow>
        (\<forall>e. World_init s p h w fc rs \<noteq> Some (Inl e))
        \<and> ((int r1 mod h, int r2 mod w)
               \<notin> fst ` set (trail (length_snake s) (segments s) (i, j)) \<longrightarrow>
            (\<exists>wd'. World_init s p h w fc (r1 # r2 # rest) = Some (Inr (wd', rest))
                  \<and> snake wd' = s \<and> pos wd' = (i, j))))"
proof (intro conjI impI allI)
  show "Snake_init len segs chs = Inl (Exception ''Snake segments must begin before the tail'')
          \<longleftrightarrow> (\<exists>seg \<in> set segs. \<not> fst seg < len - 1)"
    using check_segments_raises [of len segs]
    by (cases "check_segments len segs") (auto simp: Snake_init_def)
next
  show "Snake_init len segs chs = Inr \<lparr>length_snake = len, chars = chs, segments = segs\<rparr>
          \<longleftrightarrow> (\<forall>seg \<in> set segs. fst seg < len - 1)"
    using check_segments_Inr [of len segs]
    by (cases "check_segments len segs") (auto simp: Snake_init_def)
next
  assume ok: "World_init s p h w fc rs = Some (Inr (wd, rs'))"
  then obtain col w1
    where col: "py_index (init_pos p h w) 1 = Inr col" "\<not> col < length_snake s - 1"
      and w1: "insertSnake (gen \<lparr>snake = s, pos = (hd (init_pos p h w), col), height = h,
                 width = w, foodchar = fc, data = [[]]\<rparr>) = Inr w1"
      and pf: "placeFood w1 rs = Some (Inr (wd, rs'))"
    by (auto simp: World_init_def split: sum.splits if_splits)
  from insertSnake_frame [OF w1] placeFood_frame [OF pf]
  have "snake wd = s" "pos wd = (hd (init_pos p h w), col)"
    by (auto simp: gen_def) (metis world.select_convs world.surjective world.update_convs)+
  with col show "snake wd = s" "py_index (init_pos p h w) 1 = Inr (snd (pos wd))"
    "snd (pos wd) \<ge> length_snake s - 1"
    by auto
next
  fix e
  assume a: "init_pos p h w = i # j # others \<and> j \<ge> length_snake s - 1
        \<and> 4 \<le> length (chars s)
        \<and> (\<forall>seg \<in> set (segments s). snd seg \<in> {''N'', ''S'', ''E'', ''W''})
        \<and> trail (length_snake s) (segments s) (i, j) \<noteq> []
        \<and> (\<forall>x \<in> set (trail (length_snake s) (segments s) (i, j)). on_grid h w (fst x))"
  from World_init_draws [of p h w i j others s fc rs] a
  obtain g where run: "World_init s p h w fc rs
              = placeFood \<lparr>snake = s, pos = (i, j), height = h, width = w, foodchar = fc,
                           data = g\<rparr> rs"
    and sg: "shape g h w" and hw: "0 < h" "0 < w"
    by blast
  show "World_init s p h w fc rs \<noteq> Some (Inl e)"
    unfolding run using sg hw by (intro placeFood_no_raise) (simp_all add: grid_ok_def)
next
  assume a: "init_pos p h w = i # j # others \<and> j \<ge> length_snake s - 1
        \<and> 4 \<le> length (chars s)
        \<and> (\<forall>seg \<in> set (segments s). snd seg \<in> {''N'', ''S'', ''E'', ''W''})
        \<and> trail (length_snake s) (segments s) (i, j) \<noteq> []
        \<and> (\<forall>x \<in> set (trail (length_snake s) (segments s) (i, j)). on_grid h w (fst x))"
    and off: "(int r1 mod h, int r2 mod w)
               \<notin> fst ` set (trail (length_snake s) (segments s) (i, j))"
  let ?q = "(int r1 mod h, int r2 mod w)"
  from World_init_draws [of p h w i j others s fc "r1 # r2 # rest"] a
  obtain g where run: "World_init s p h w fc (r1 # r2 # rest)
              = placeFood \<lparr>snake = s, pos = (i, j), height = h, width = w, foodchar = fc,
                           data = g\<rparr> (r1 # r2 # rest)"
    and sg: "shape g h w" and hw: "0 < h" "0 < w"
    and blank: "\<forall>q. on_grid h w q
                  \<and> q \<notin> fst ` set (trail (length_snake s) (segments s) (i, j)) \<longrightarrow>
                cell_at g q = '' ''"
    by blast
  have "on_grid h w ?q"
    using hw by (simp add: on_grid_def in_range_def)
  then have "cell_at g ?q = '' ''"
    using blank off by blast
  then have "World_init s p h w fc (r1 # r2 # rest)
               = Some (Inr (\<lparr>snake = s, pos = (i, j), height = h, width = w, foodchar = fc,
                              data = paint g (?q, fc)\<rparr>, rest))"
    unfolding run
    using placeFood_hit [of "\<lparr>snake = s, pos = (i, j), height = h, width = w, foodchar = fc,
                               data = g\<rparr>" r1 r2 rest] sg hw
    by (simp add: grid_ok_def)
  then show "\<exists>wd'. World_init s p h w fc (r1 # r2 # rest) = Some (Inr (wd', rest))
                  \<and> snake wd' = s \<and> pos wd' = (i, j)"
    by simp
qed

theorem construction_checks_witness:
  "Snake_init 3 [(0, ''E''), (2, ''N'')] default_chars
     = Inl (Exception ''Snake segments must begin before the tail'')
   \<and> Snake_init 3 [(0, ''E'')] default_chars = Inr default_snake
   \<and> init_pos (Some [8, 2]) 16 16 = [8, 2]
   \<and> (2 :: int) \<ge> length_snake default_snake - 1
   \<and> trail (length_snake default_snake) (segments default_snake) (8, 2)
       = [((8, 2), ''E''), ((8, 1), ''E''), ((8, 0), ''E'')]
   \<and> World_init default_snake (Some [8, 2]) 16 16 ''*'' [3, 7] = Some (Inr (edge_world, []))
   \<and> World_init default_snake (Some [8, 2]) 16 16 ''*'' [8, 1] \<noteq> Some (Inl IndexError)
   \<and> snake edge_world = default_snake
   \<and> pos edge_world = (8, 2)
   \<and> snd (pos edge_world) \<ge> length_snake default_snake - 1"
proof -
  have built: "World_init default_snake (Some [8, 2]) 16 16 ''*'' [3, 7]
                 = Some (Inr (edge_world, []))"
    by code_simp
  have h: "\<exists>seg \<in> set [(0 :: int, ''E''), (2, ''N'')]. \<not> fst seg < 3 - 1"
    "\<forall>seg \<in> set [(0 :: int, ''E'')]. fst seg < 3 - 1"
    "default_snake = \<lparr>length_snake = 3, chars = default_chars, segments = [(0, ''E'')]\<rparr>"
    "init_pos (Some [8, 2]) 16 16 = [8, 2]"
    "(2 :: int) \<ge> length_snake default_snake - 1"
    "4 \<le> length (chars default_snake)"
    "\<forall>seg \<in> set (segments default_snake). snd seg \<in> {''N'', ''S'', ''E'', ''W''}"
    "trail (length_snake default_snake) (segments default_snake) (8, 2)
       = [((8, 2), ''E''), ((8, 1), ''E''), ((8, 0), ''E'')]"
    by code_simp+
  have on: "\<forall>x \<in> set (trail (length_snake default_snake) (segments default_snake) (8, 2)).
              on_grid 16 16 (fst x)"
    unfolding h(8) by (simp add: on_grid_def in_range_def)
  have ne: "trail (length_snake default_snake) (segments default_snake) (8, 2) \<noteq> []"
    unfolding h(8) by simp
  note a = construction_checks [of 3 "[(0, ''E''), (2, ''N'')]" default_chars
      default_snake "Some [8, 2]" 16 16 "''*''" "[3, 7]" edge_world "[]" 8 2 "[]" 3 7 "[]"]
  note b = construction_checks [of 3 "[(0, ''E'')]" default_chars
      default_snake "Some [8, 2]" 16 16 "''*''" "[8, 1]" edge_world "[]" 8 2 "[]"]
  have "Snake_init 3 [(0, ''E''), (2, ''N'')] default_chars
          = Inl (Exception ''Snake segments must begin before the tail'')"
    using a h(1) by blast
  moreover have "Snake_init 3 [(0, ''E'')] default_chars = Inr default_snake"
    using b h(2) unfolding h(3) by blast
  moreover have "snake edge_world = default_snake
      \<and> snd (pos edge_world) \<ge> length_snake default_snake - 1"
    using a built by blast
  moreover have "World_init default_snake (Some [8, 2]) 16 16 ''*'' [8, 1]
                   \<noteq> Some (Inl IndexError)"
    using b h(4,5,6,7) ne on by blast
  moreover have "pos edge_world = (8, 2)"
  proof -
    have "(int 3 mod 16, int 7 mod 16)
            \<notin> fst ` set (trail (length_snake default_snake) (segments default_snake) (8, 2))"
      unfolding h(8) by simp
    with a h(4,5,6,7) ne on
    obtain wd' where "World_init default_snake (Some [8, 2]) 16 16 ''*'' [3, 7]
                        = Some (Inr (wd', []))" "pos wd' = (8, 2)"
      by blast
    then show ?thesis
      using built by simp
  qed
  ultimately show ?thesis
    using built h(4,5,8) by simp
qed

text \<open>
  Claim C7 as stated fails. The default world is constructed although
  \<open>length - 1 \<ge> startColumn\<close> is false (\<open>2 \<ge> 4\<close>). With the start
  position \<^verbatim>\<open>[20, 4]\<close> the start column is at least \<open>length - 1\<close> and both
  checks pass, but the constructor raises from \<^verbatim>\<open>insertSnake\<close>, the head being
  below the grid. And with the start position \<^verbatim>\<open>[8, 1]\<close>, a start column below
  \<open>length - 1\<close>, what is raised is not the exception of the check: its message
  is one string divided by another, and evaluating it raises TypeError.
\<close>

theorem world_init_not_iff_start_column:
  "World_init default_snake None 16 16 ''*'' [3, 7] = Some (Inr (fed_world 3 7, []))
   \<and> \<not> length_snake default_snake - 1 \<ge> snd (pos (fed_world 3 7))
   \<and> Snake_init 3 [(0, ''E'')] default_chars = Inr default_snake
   \<and> py_index (init_pos (Some [20, 4]) 16 16) 1 = Inr 4
   \<and> (4 :: int) \<ge> length_snake default_snake - 1
   \<and> World_init default_snake (Some [20, 4]) 16 16 ''*'' [3, 7]
       = Some (Inl (Exception ''Snake is out of bounds''))
   \<and> py_index (init_pos (Some [8, 1]) 16 16) 1 = Inr 1
   \<and> (1 :: int) < length_snake default_snake - 1
   \<and> World_init default_snake (Some [8, 1]) 16 16 ''*'' [3, 7] = Some (Inl TypeError)"
  by code_simp

end
